theory Spec2Isabelle
  imports Main "HOL-Library.AList"
begin

section \<open>The game state snapshot (src/services/GameService.js)\<close>

text \<open>
  A snapshot is the \<open>data\<close> object of a server frame, produced by \<open>JSON.parse\<close>.  Its
  numbers are integers (grid coordinates, die faces), its identifiers are strings, so the
  strict comparison \<open>!==\<close> of the source is disequality of values.  The \<open>timestamp\<close>
  field that every emitted payload gets from \<open>Date.now()\<close> is left out of the payloads.
\<close>

record position =
  row :: int
  col :: int

record piece =
  piece_id :: string
  color :: string
  position :: position
  atHome :: bool
  inSafeZone :: bool
  finished :: bool

record dice =
  die1 :: int
  die2 :: int

record game_state =
  dice :: dice
  currentPlayerId :: string
  currentPlayerName :: string
  players :: "string list"
  pieces :: "piece list"
  gameStatus :: string
  gameOver :: bool
  winner :: "string option"

text \<open>The \<open>fromState\<close> / \<open>toState\<close> object of a movement record.\<close>

record piece_flags =
  fl_atHome :: bool
  fl_inSafeZone :: bool
  fl_finished :: bool

record movement =
  mv_pieceId :: string
  mv_color :: string
  mv_from :: position
  mv_to :: position
  mv_fromState :: piece_flags
  mv_toState :: piece_flags

text \<open>
  The numbers of the source are doubles.  Those met here are \<open>NaN\<close>, the doubles with
  an integer value and the two infinities; \<open>Num n\<close> stands for the double whose value
  is \<open>n\<close>.  The sign of zero, which no comparison and no printing here shows, is not
  kept.
\<close>

datatype jsnum = NaN | Num int | PosInfinity | NegInfinity

text \<open>
  The events the two services hand to \<open>eventBus.emit\<close>, with their payloads.
  \<open>dice.updated\<close> has two shapes: \<open>{old, new}\<close> from the state diff and \<open>{new}\<close> with
  parsed die values from the dice broadcast.
\<close>

datatype event =
    DiceUpdated "dice option" dice
  | DiceRolled jsnum jsnum
  | PiecesMoved "movement list"
  | TurnChanged "string option" string string
  | GameEnded "string option" string
  | GameStateUpdated "game_state option" game_state
  | GameError string
  | WebsocketError string
  | WebsocketConnected string
  | WebsocketDisconnected
  | GameCreated string
  | GameConnectionEstablished string
  | GameConnectionLost
  | LobbyGameCreated string

fun event_name :: "event \<Rightarrow> string" where
  "event_name (DiceUpdated _ _) = ''dice.updated''"
| "event_name (DiceRolled _ _) = ''dice.updated''"
| "event_name (PiecesMoved _) = ''pieces.moved''"
| "event_name (TurnChanged _ _ _) = ''turn.changed''"
| "event_name (GameEnded _ _) = ''game.ended''"
| "event_name (GameStateUpdated _ _) = ''game.state.updated''"
| "event_name (GameError _) = ''game.error''"
| "event_name (WebsocketError _) = ''websocket.error''"
| "event_name (WebsocketConnected _) = ''websocket.connected''"
| "event_name WebsocketDisconnected = ''websocket.disconnected''"
| "event_name (GameCreated _) = ''game.created''"
| "event_name (GameConnectionEstablished _) = ''game.connection.established''"
| "event_name GameConnectionLost = ''game.connection.lost''"
| "event_name (LobbyGameCreated _) = ''lobby.game.created''"

subsection \<open>calculatePieceMovements\<close>

definition movement_record :: "piece \<Rightarrow> piece \<Rightarrow> movement" where
  "movement_record oldPiece newPiece =
     \<lparr> mv_pieceId = piece_id newPiece,
       mv_color = color newPiece,
       mv_from = position oldPiece,
       mv_to = position newPiece,
       mv_fromState = \<lparr> fl_atHome = atHome oldPiece, fl_inSafeZone = inSafeZone oldPiece,
                        fl_finished = finished oldPiece \<rparr>,
       mv_toState = \<lparr> fl_atHome = atHome newPiece, fl_inSafeZone = inSafeZone newPiece,
                      fl_finished = finished newPiece \<rparr> \<rparr>"

text \<open>
  One round of the \<open>newPieces.forEach\<close> callback: \<open>oldPieces.find\<close> returns the first
  old piece with the id, or \<open>undefined\<close>; a record is pushed when one is found and the
  row or the column differs.
\<close>

definition movement_step :: "piece list \<Rightarrow> movement list \<Rightarrow> piece \<Rightarrow> movement list" where
  "movement_step oldPieces movements newPiece =
     (case find (\<lambda>p. piece_id p = piece_id newPiece) oldPieces of
        None \<Rightarrow> movements
      | Some oldPiece \<Rightarrow>
          if row (position oldPiece) \<noteq> row (position newPiece)
             \<or> col (position oldPiece) \<noteq> col (position newPiece)
          then movements @ [movement_record oldPiece newPiece]
          else movements)"

definition calculatePieceMovements :: "piece list \<Rightarrow> piece list \<Rightarrow> movement list" where
  "calculatePieceMovements oldPieces newPieces = foldl (movement_step oldPieces) [] newPieces"

text \<open>
  What one round of the callback contributes for a new piece: the record it pushes, or
  nothing.  The proofs below read the loop through it.
\<close>

definition moved_from :: "piece list \<Rightarrow> piece \<Rightarrow> movement option" where
  "moved_from oldPieces newPiece =
     (case find (\<lambda>p. piece_id p = piece_id newPiece) oldPieces of
        None \<Rightarrow> None
      | Some oldPiece \<Rightarrow>
          if row (position oldPiece) \<noteq> row (position newPiece)
             \<or> col (position oldPiece) \<noteq> col (position newPiece)
          then Some (movement_record oldPiece newPiece)
          else None)"

subsection \<open>emitStateChangeEvents and updateGameState\<close>

text \<open>
  The four diffs, in the order of the source.  \<open>pieces\<close> is an array, which is truthy
  even when empty, so the guard \<open>oldState && oldState.pieces\<close> is the presence of the old
  snapshot.
\<close>

definition dice_events :: "game_state option \<Rightarrow> game_state \<Rightarrow> event list" where
  "dice_events oldState newState =
     (case oldState of
        None \<Rightarrow> [DiceUpdated None (dice newState)]
      | Some os \<Rightarrow>
          if die1 (dice os) \<noteq> die1 (dice newState) \<or> die2 (dice os) \<noteq> die2 (dice newState)
          then [DiceUpdated (Some (dice os)) (dice newState)]
          else [])"

definition piece_events :: "game_state option \<Rightarrow> game_state \<Rightarrow> event list" where
  "piece_events oldState newState =
     (case oldState of
        None \<Rightarrow> []
      | Some os \<Rightarrow>
          (let movements = calculatePieceMovements (pieces os) (pieces newState)
           in if length movements > 0 then [PiecesMoved movements] else []))"

definition turn_events :: "game_state option \<Rightarrow> game_state \<Rightarrow> event list" where
  "turn_events oldState newState =
     (case oldState of
        None \<Rightarrow> [TurnChanged None (currentPlayerId newState) (currentPlayerName newState)]
      | Some os \<Rightarrow>
          if currentPlayerId os \<noteq> currentPlayerId newState
          then [TurnChanged (Some (currentPlayerId os)) (currentPlayerId newState)
                  (currentPlayerName newState)]
          else [])"

definition game_over_events :: "game_state option \<Rightarrow> game_state \<Rightarrow> event list" where
  "game_over_events oldState newState =
     (if gameOver newState \<and> (case oldState of None \<Rightarrow> True | Some os \<Rightarrow> \<not> gameOver os)
      then [GameEnded (winner newState) (gameStatus newState)]
      else [])"

definition emitStateChangeEvents :: "game_state option \<Rightarrow> game_state \<Rightarrow> event list" where
  "emitStateChangeEvents oldState newState =
     dice_events oldState newState @ piece_events oldState newState
       @ turn_events oldState newState @ game_over_events oldState newState"

text \<open>The fields of the \<open>GameService\<close> singleton.\<close>

record game_service =
  currentState :: "game_state option"
  isConnected :: bool
  currentGameId :: "string option"

text \<open>
  \<open>updateGameState\<close> replaces the stored snapshot, emits the granular events and then
  the general update.  The result is the new service state and the events in emission
  order.
\<close>

definition updateGameState :: "game_service \<Rightarrow> game_state \<Rightarrow> game_service \<times> event list" where
  "updateGameState gs newState =
     (let oldState = currentState gs;
          gs' = gs\<lparr> currentState := Some newState \<rparr>
      in (gs', emitStateChangeEvents oldState newState @ [GameStateUpdated oldState newState]))"

text \<open>Feeding a sequence of snapshots through \<open>updateGameState\<close>, one event list per call.\<close>

fun run_updates :: "game_service \<Rightarrow> game_state list \<Rightarrow> game_service \<times> event list list" where
  "run_updates gs [] = (gs, [])"
| "run_updates gs (s # ss) =
     (let (gs', evs) = updateGameState gs s;
          (gs'', rest) = run_updates gs' ss
      in (gs'', evs # rest))"


section \<open>JavaScript strings\<close>

text \<open>
  Strings are lists of 8-bit characters; the texts the server sends here are ASCII.
  \<open>is_js_space\<close> is the class \<open>\s\<close> of a regular expression, which \<open>trim\<close> and
  \<open>parseInt\<close> strip as well: tab, line feed, vertical tab, form feed, carriage return,
  space and no-break space.  \<open>is_line_terminator\<close> is what \<open>.\<close> refuses.
\<close>

definition is_js_space :: "char \<Rightarrow> bool" where
  "is_js_space c \<longleftrightarrow> (of_char c :: nat) \<in> {9, 10, 11, 12, 13, 32, 160}"


definition is_digit :: "char \<Rightarrow> bool" where
  "is_digit c \<longleftrightarrow> c \<in> set ''0123456789''"

text \<open>The class \<open>\w\<close>: letters, digits and the underscore.\<close>

definition is_word_char :: "char \<Rightarrow> bool" where
  "is_word_char c \<longleftrightarrow>
     c \<in> set ''ABCDEFGHIJKLMNOPQRSTUVWXYZabcdefghijklmnopqrstuvwxyz0123456789_''"

definition digit_value :: "char \<Rightarrow> int" where
  "digit_value c = int (of_char c) - 48"

definition digits_value :: "string \<Rightarrow> int" where
  "digits_value ds = foldl (\<lambda>acc c. 10 * acc + digit_value c) 0 ds"

text \<open>
  The double nearest to a non-negative integer.  Up to \<open>2^53\<close> every integer is a double.
  Above, a double has 53 significant bits: with \<open>sh\<close> the number of bits beyond 53,
  the number is cut to a multiple of \<open>2^sh\<close>, rounding to the nearest one and, half way
  between two, to the one with an even quotient.  From \<open>2^1024\<close> on the result is
  \<open>Infinity\<close>.
\<close>

function bit_length :: "int \<Rightarrow> nat" where
  "bit_length n = (if n \<le> 0 then 0 else Suc (bit_length (n div 2)))"
  by pat_completeness auto
termination
  by (relation "measure nat") auto

declare bit_length.simps [simp del]

definition to_double :: "int \<Rightarrow> jsnum" where
  "to_double n =
     (if n \<le> 2 ^ 53 then Num n
      else (let sh = bit_length n - 53;
                q = n div 2 ^ sh;
                r = n mod 2 ^ sh;
                half = 2 ^ (sh - 1);
                q' = (if half < r \<or> (r = half \<and> odd q) then q + 1 else q)
            in if 2 ^ 1024 \<le> q' * 2 ^ sh then PosInfinity else Num (q' * 2 ^ sh)))"

fun js_negate :: "jsnum \<Rightarrow> jsnum" where
  "js_negate NaN = NaN"
| "js_negate (Num n) = Num (- n)"
| "js_negate PosInfinity = NegInfinity"
| "js_negate NegInfinity = PosInfinity"

text \<open>The double nearest to an integer; rounding is the same on both sides of zero.\<close>

definition double_of_int :: "int \<Rightarrow> jsnum" where
  "double_of_int n = (if 0 \<le> n then to_double n else js_negate (to_double (- n)))"

text \<open>
  \<open>parseInt(s, 10)\<close>: leading white space is skipped, a sign is read, then the longest
  run of decimal digits; with no digit the result is \<open>NaN\<close>, otherwise the double nearest
  to the signed value of the digits.  On a string of digits only, \<open>parseInt(s)\<close> without
  a radix is the same function.  (Beyond twenty digits an engine may read the further
  digits as zeros before it rounds.)
\<close>

definition parseInt :: "string \<Rightarrow> jsnum" where
  "parseInt s =
     (let s1 = dropWhile is_js_space s;
          (sign, s2) = (case s1 of
                          c # r \<Rightarrow> if c = CHR ''-'' then (- 1, r)
                                   else if c = CHR ''+'' then (1, r) else (1, s1)
                        | [] \<Rightarrow> (1, s1));
          ds = takeWhile is_digit s2
      in if ds = [] then NaN else double_of_int (sign * digits_value ds))"

text \<open>
  The comparison \<open>i <= end\<close> and the step \<open>i++\<close> on doubles.  A comparison with
  \<open>NaN\<close> is false.  The step adds one and rounds: from \<open>2^53\<close> the sum \<open>2^53 + 1\<close> is
  half way between two doubles and rounds back to \<open>2^53\<close>.
\<close>

fun js_le :: "jsnum \<Rightarrow> jsnum \<Rightarrow> bool" where
  "js_le NaN _ = False"
| "js_le _ NaN = False"
| "js_le (Num a) (Num b) = (a \<le> b)"
| "js_le NegInfinity _ = True"
| "js_le _ PosInfinity = True"
| "js_le _ _ = False"

fun js_succ :: "jsnum \<Rightarrow> jsnum" where
  "js_succ (Num n) = double_of_int (n + 1)"
| "js_succ x = x"

text \<open>\<open>s.charAt(i)\<close>: the one-character string at index \<open>i\<close>, the empty string out of range.\<close>

definition charAt :: "string \<Rightarrow> nat \<Rightarrow> string" where
  "charAt s i = (if i < length s then [s ! i] else [])"

definition trim :: "string \<Rightarrow> string" where
  "trim s = rev (dropWhile is_js_space (rev (dropWhile is_js_space s)))"


text \<open>The rest of \<open>s\<close> after the literal \<open>p\<close>, when \<open>s\<close> starts with it.\<close>

fun strip_prefix :: "string \<Rightarrow> string \<Rightarrow> string option" where
  "strip_prefix [] s = Some s"
| "strip_prefix (p # ps) [] = None"
| "strip_prefix (p # ps) (c # cs) = (if p = c then strip_prefix ps cs else None)"

text \<open>The decimal digits of a non-negative integer.\<close>

definition digit_char :: "nat \<Rightarrow> char" where
  "digit_char d = ''0123456789'' ! (d mod 10)"

function decimal_digits :: "int \<Rightarrow> string" where
  "decimal_digits n =
     (if n < 10 then [digit_char (nat n)]
      else decimal_digits (n div 10) @ [digit_char (nat (n mod 10))])"
  by pat_completeness auto
termination
  by (relation "measure nat") auto

declare decimal_digits.simps [simp del]

text \<open>
  A number in a template literal.  For an integer below \<open>2^54\<close> in absolute value the
  source prints its decimal digits, as here.  For a larger double it prints the shortest
  digits that read back as the same double, which this function does not follow: the
  parser builds an option from such a number only in a loop that never returns
  (\<open>large_counter_never_returns\<close> below).
\<close>

fun js_number_string :: "jsnum \<Rightarrow> string" where
  "js_number_string NaN = ''NaN''"
| "js_number_string PosInfinity = ''Infinity''"
| "js_number_string NegInfinity = ''-Infinity''"
| "js_number_string (Num n) =
     (if n < 0 then ''-'' @ decimal_digits (- n) else decimal_digits n)"

text \<open>The truth value of a string that may be \<open>null\<close> or \<open>undefined\<close>: absent and empty are falsy.\<close>

definition truthy :: "string option \<Rightarrow> bool" where
  "truthy s = (case s of None \<Rightarrow> False | Some t \<Rightarrow> t \<noteq> [])"

section \<open>Frames and the dice broadcast\<close>

text \<open>A parsed server frame: \<open>{type, success, message, data}\<close>.\<close>

record frame =
  frame_type :: string
  success :: bool
  message :: "string option"
  data :: "game_state option"

text \<open>
  \<open>handleDiceEvent\<close>: with \<open>success\<close> and a truthy \<open>message\<close>, the two dice are read from
  the first two characters.
\<close>

definition handleDiceEvent :: "frame \<Rightarrow> event list" where
  "handleDiceEvent ev =
     (case message ev of
        None \<Rightarrow> []
      | Some m \<Rightarrow>
          if success ev \<and> truthy (Some m)
          then [DiceRolled (parseInt (charAt m 0)) (parseInt (charAt m 1))]
          else [])"

section \<open>The move-option parser (parseMoveOptions)\<close>

record move_option =
  number :: jsnum
  description :: string
  originalLine :: string



definition generic_option :: "jsnum \<Rightarrow> move_option" where
  "generic_option i =
     \<lparr> number = i,
       description = ''Game option '' @ js_number_string i,
       originalLine = js_number_string i @ ''. Game option '' @ js_number_string i \<rparr>"

text \<open>
  The loop \<open>for (let i = start; i <= end; i++) moves.push(...)\<close>.  It need not end, so
  its result is optional: \<open>None\<close> is the loop that never returns.
\<close>

partial_function (option) range_loop ::
  "jsnum \<Rightarrow> jsnum \<Rightarrow> move_option list \<Rightarrow> move_option list option" where
  "range_loop i end_i moves =
     (if js_le i end_i then range_loop (js_succ i) end_i (moves @ [generic_option i])
      else Some moves)"

declare range_loop.simps [code]




section \<open>The transport (src/services/WebSocketService.js)\<close>

datatype js_error = TypeError

text \<open>The bodies the service serialises: \<open>{}\<close>, \<open>{playerId}\<close>, \<open>{gameId, playerId}\<close>, \<open>{choice}\<close>.\<close>

datatype payload =
    EmptyPayload
  | CreatePayload string
  | JoinPayload string string
  | ChoicePayload int

text \<open>
  The STOMP client is a library object.  What the service does to it is recorded: whether
  \<open>activate\<close> was called, the destination of every \<open>subscribe\<close> call in call order (the
  subscription a call returns is identified by its index), the subscriptions that were
  unsubscribed, and every \<open>publish\<close> call.
\<close>

record stomp_client =
  activated :: bool
  subscribed :: "string list"
  unsubscribed :: "nat list"
  published :: "(string \<times> payload) list"

text \<open>
  The fields of the \<open>WebSocketService\<close> singleton.  \<open>subscriptions\<close> is the \<open>Map\<close> from
  a key to a subscription; \<open>AList.update\<close> keeps the place of a key that is set again,
  as \<open>Map.set\<close> does.
\<close>

record ws_service =
  stompClient :: "stomp_client option"
  connected :: bool
  connecting :: bool
  sessionId :: string
  ws_currentGameId :: "string option"
  subscriptions :: "(string \<times> nat) list"

text \<open>The promise \<open>connect\<close> returns: \<open>Promise.resolve()\<close>, or a new one that is still pending.\<close>

datatype promise = Resolved | Pending

definition new_client :: stomp_client where
  "new_client = \<lparr> activated = False, subscribed = [], unsubscribed = [], published = [] \<rparr>"

definition connect :: "ws_service \<Rightarrow> promise \<times> ws_service" where
  "connect ws =
     (if connected ws \<or> connecting ws then (Resolved, ws)
      else (Pending,
            ws\<lparr> connecting := True, stompClient := Some (new_client\<lparr> activated := True \<rparr>) \<rparr>))"

text \<open>\<open>stompClient.subscribe(destination, callback)\<close> followed by \<open>subscriptions.set(key, ...)\<close>.\<close>

definition subscribe_as :: "string \<Rightarrow> string \<Rightarrow> ws_service \<Rightarrow> js_error + ws_service" where
  "subscribe_as key destination ws =
     (case stompClient ws of
        None \<Rightarrow> Inl TypeError
      | Some c \<Rightarrow>
          Inr (ws\<lparr> stompClient := Some (c\<lparr> subscribed := subscribed c @ [destination] \<rparr>),
                   subscriptions := AList.update key (length (subscribed c)) (subscriptions ws) \<rparr>))"

definition subscribeToPersonalQueue :: "ws_service \<Rightarrow> js_error + ws_service" where
  "subscribeToPersonalQueue ws = subscribe_as ''personal.queue'' ''/user/queue/response'' ws"

definition subscribeToGameEvents :: "string \<Rightarrow> ws_service \<Rightarrow> js_error + ws_service" where
  "subscribeToGameEvents gameId ws =
     subscribe_as (''game.'' @ gameId @ ''.events'') (''/topic/game/'' @ gameId @ ''/events'') ws"

text \<open>
  The callbacks of the client that settle the pending promise.  \<open>onWebSocketError\<close> has
  the body of \<open>onStompError\<close>.
\<close>

definition onConnect :: "ws_service \<Rightarrow> js_error + (ws_service \<times> event list)" where
  "onConnect ws =
     (case subscribeToPersonalQueue (ws\<lparr> connected := True, connecting := False \<rparr>) of
        Inl e \<Rightarrow> Inl e
      | Inr ws' \<Rightarrow> Inr (ws', [WebsocketConnected (sessionId ws')]))"

definition onStompError :: "string \<Rightarrow> ws_service \<Rightarrow> ws_service \<times> event list" where
  "onStompError err ws = (ws\<lparr> connected := False, connecting := False \<rparr>, [WebsocketError err])"

definition disconnect :: "ws_service \<Rightarrow> ws_service \<times> event list" where
  "disconnect ws =
     (case stompClient ws of
        None \<Rightarrow> (ws, [])
      | Some c \<Rightarrow>
          if connected ws
          then (ws\<lparr> stompClient := Some (c\<lparr> unsubscribed := unsubscribed c @ map snd (subscriptions ws),
                                            activated := False \<rparr>),
                    subscriptions := [], connected := False, ws_currentGameId := None \<rparr>,
                [WebsocketDisconnected])
          else (ws, []))"

text \<open>
  \<open>extractGameId\<close>: the expression \<open>/Game (\w+) created/\<close>, tried at a position and then
  searched from the left.  After the longest run of word characters the next character
  is no word character, so no shorter run can be followed by the space.
\<close>

definition game_id_at :: "string \<Rightarrow> string option" where
  "game_id_at s =
     (case strip_prefix ''Game '' s of
        None \<Rightarrow> None
      | Some r \<Rightarrow>
          (let g = takeWhile is_word_char r
           in if g = [] then None
              else (case strip_prefix '' created'' (dropWhile is_word_char r) of
                      None \<Rightarrow> None
                    | Some _ \<Rightarrow> Some g)))"

fun extractGameId :: "string \<Rightarrow> string option" where
  "extractGameId [] = game_id_at []"
| "extractGameId (c # cs) =
     (case game_id_at (c # cs) of
        Some g \<Rightarrow> Some g
      | None \<Rightarrow> extractGameId cs)"

text \<open>
  \<open>handleGameCreated\<close>.  A frame without a message makes \<open>message.match\<close> throw; a
  message without the pattern is logged and changes nothing.
\<close>

definition handleGameCreated :: "frame \<Rightarrow> ws_service \<Rightarrow> js_error + (ws_service \<times> event list)" where
  "handleGameCreated response ws =
     (case message response of
        None \<Rightarrow> Inl TypeError
      | Some m \<Rightarrow>
          (case extractGameId m of
             None \<Rightarrow> Inr (ws, [])
           | Some gameId \<Rightarrow>
               (case subscribeToGameEvents gameId (ws\<lparr> ws_currentGameId := Some gameId \<rparr>) of
                  Inl e \<Rightarrow> Inl e
                | Inr ws' \<Rightarrow> Inr (ws', [GameCreated gameId]))))"

text \<open>
  \<open>send\<close>: the guard on \<open>connected\<close>, then \<open>stompClient.publish\<close>.  The source sets
  \<open>connected\<close> only in a callback of the client, but the model keeps the failure of a
  call on a missing client as a result.
\<close>

definition send :: "string \<Rightarrow> payload \<Rightarrow> ws_service \<Rightarrow> js_error + (ws_service \<times> event list)" where
  "send destination body ws =
     (if \<not> connected ws then Inr (ws, [WebsocketError ''Not connected''])
      else (case stompClient ws of
              None \<Rightarrow> Inl TypeError
            | Some c \<Rightarrow>
                Inr (ws\<lparr> stompClient := Some (c\<lparr> published := published c @ [(destination, body)] \<rparr>) \<rparr>,
                     [])))"

text \<open>The outgoing messages.  \<open>playerId\<close> is what \<open>PlayerIdentity.getPlayerId()\<close> returns.\<close>

definition ws_createGame :: "string \<Rightarrow> ws_service \<Rightarrow> js_error + (ws_service \<times> event list)" where
  "ws_createGame playerId ws = send ''/app/game.create'' (CreatePayload playerId) ws"

definition ws_joinGame :: "string \<Rightarrow> string \<Rightarrow> ws_service \<Rightarrow> js_error + (ws_service \<times> event list)" where
  "ws_joinGame playerId gameId ws =
     send ''/app/game.join'' (JoinPayload gameId playerId) (ws\<lparr> ws_currentGameId := Some gameId \<rparr>)"

definition ws_rollDice :: "ws_service \<Rightarrow> js_error + (ws_service \<times> event list)" where
  "ws_rollDice ws = send ''/app/game.roll'' EmptyPayload ws"

definition ws_makeChoice :: "int \<Rightarrow> ws_service \<Rightarrow> js_error + (ws_service \<times> event list)" where
  "ws_makeChoice choice ws = send ''/app/game.choice'' (ChoicePayload choice) ws"

definition ws_getGameState :: "ws_service \<Rightarrow> js_error + (ws_service \<times> event list)" where
  "ws_getGameState ws = send ''/app/game.state'' EmptyPayload ws"

section \<open>The action methods of GameService\<close>

text \<open>
  The listeners \<open>GameService\<close> registers on the bus for the events of the transport
  (\<open>initializeWebSocketListeners\<close>).  The bus calls a listener inside \<open>emit\<close>, so what a
  listener does happens inside the call that emitted the event.  For an event without
  such a listener nothing happens.
\<close>

fun gs_listener :: "event \<Rightarrow> game_service \<Rightarrow> game_service \<times> event list" where
  "gs_listener (WebsocketConnected sid) gs =
     (gs\<lparr> isConnected := True \<rparr>, [GameConnectionEstablished sid])"
| "gs_listener WebsocketDisconnected gs =
     (gs\<lparr> isConnected := False, currentState := None, currentGameId := None \<rparr>,
      [GameConnectionLost])"
| "gs_listener (WebsocketError err) gs = (gs, [GameError err])"
| "gs_listener (GameCreated gameId) gs =
     (gs\<lparr> currentGameId := Some gameId \<rparr>, [LobbyGameCreated gameId])"
| "gs_listener _ gs = (gs, [])"

text \<open>
  The events of a call on the transport as the bus sees them: each event is followed by
  the events its listener in \<open>GameService\<close> emits.  Listeners outside the two services
  are not followed.
\<close>

fun relay :: "event list \<Rightarrow> game_service \<Rightarrow> game_service \<times> event list" where
  "relay [] gs = (gs, [])"
| "relay (e # es) gs =
     (let (gs', out) = gs_listener e gs;
          (gs'', rest) = relay es gs'
      in (gs'', e # out @ rest))"

text \<open>
  An action method works on both singletons.  Its result is the value it returns, the two
  states and the events emitted during the call.  The guarded methods have no \<open>return\<close>
  with a value, so their value is \<open>undefined\<close> on every path; \<open>connect\<close> returns a
  boolean.
\<close>

datatype jsval = JSUndefined | JSBoolean bool

type_synonym action_result = "js_error + (jsval \<times> (game_service \<times> ws_service) \<times> event list)"

definition rejected :: "string \<Rightarrow> game_service \<Rightarrow> ws_service \<Rightarrow> action_result" where
  "rejected err gs ws = Inr (JSUndefined, (gs, ws), [GameError err])"

definition forwarded :: "game_service \<Rightarrow> js_error + (ws_service \<times> event list) \<Rightarrow> action_result" where
  "forwarded gs r =
     (case r of
        Inl e \<Rightarrow> Inl e
      | Inr (ws', evs) \<Rightarrow>
          (let (gs', evs') = relay evs gs in Inr (JSUndefined, (gs', ws'), evs')))"

definition createGame :: "string \<Rightarrow> game_service \<Rightarrow> ws_service \<Rightarrow> action_result" where
  "createGame playerId gs ws =
     (if \<not> isConnected gs then rejected ''Not connected to server'' gs ws
      else forwarded gs (ws_createGame playerId ws))"

text \<open>\<open>joinGame(gameId)\<close>: the argument may be absent; \<open>gameId.trim() === ''\<close> is the second guard.\<close>

definition joinGame :: "string \<Rightarrow> string option \<Rightarrow> game_service \<Rightarrow> ws_service \<Rightarrow> action_result" where
  "joinGame playerId gameId gs ws =
     (if \<not> isConnected gs then rejected ''Not connected to server'' gs ws
      else (case gameId of
              None \<Rightarrow> rejected ''Invalid game ID'' gs ws
            | Some g \<Rightarrow>
                if g = [] \<or> trim g = [] then rejected ''Invalid game ID'' gs ws
                else forwarded gs (ws_joinGame playerId g ws)))"

definition rollDice :: "game_service \<Rightarrow> ws_service \<Rightarrow> action_result" where
  "rollDice gs ws =
     (if \<not> isConnected gs \<or> \<not> truthy (currentGameId gs)
      then rejected ''Not in an active game'' gs ws
      else forwarded gs (ws_rollDice ws))"

text \<open>\<open>selectPiece(pieceIndex)\<close> with a number as argument, so the \<open>typeof\<close> test passes.\<close>

definition selectPiece :: "int \<Rightarrow> game_service \<Rightarrow> ws_service \<Rightarrow> action_result" where
  "selectPiece pieceIndex gs ws =
     (if \<not> isConnected gs \<or> \<not> truthy (currentGameId gs)
      then rejected ''Not in an active game'' gs ws
      else if pieceIndex < 0 then rejected ''Invalid piece selection'' gs ws
      else forwarded gs (ws_makeChoice pieceIndex ws))"

text \<open>\<open>requestGameState\<close> writes its refusal to the console only.\<close>

definition requestGameState :: "game_service \<Rightarrow> ws_service \<Rightarrow> action_result" where
  "requestGameState gs ws =
     (if \<not> isConnected gs \<or> \<not> truthy (currentGameId gs)
      then Inr (JSUndefined, (gs, ws), [])
      else forwarded gs (ws_getGameState ws))"

text \<open>
  \<open>GameService.disconnect\<close>: the transport is asked to disconnect, then the three fields
  are reset.  It has no guard and no returned value.
\<close>

definition gs_disconnect :: "game_service \<Rightarrow> ws_service \<Rightarrow> action_result" where
  "gs_disconnect gs ws =
     (let (ws', evs) = disconnect ws;
          (gs', evs') = relay evs gs
      in Inr (JSUndefined,
              (gs'\<lparr> currentState := None, currentGameId := None, isConnected := False \<rparr>, ws'),
              evs'))"

text \<open>
  \<open>GameService.connect\<close> awaits the promise of the transport's \<open>connect\<close>.  What becomes
  of a pending promise is decided by the client: it calls \<open>onConnect\<close>, or one of the two
  error callbacks, or neither.  The method returns \<open>true\<close> when the promise resolves; when
  it is rejected the method emits \<open>game.error\<close> and returns \<open>false\<close>.  \<open>None\<close> is the
  call whose promise is never settled.
\<close>

datatype handshake = Accepted | Refused string | Unanswered

definition gs_connect :: "handshake \<Rightarrow> game_service \<Rightarrow> ws_service \<Rightarrow> action_result option" where
  "gs_connect h gs ws =
     (case connect ws of
        (Resolved, ws') \<Rightarrow> Some (Inr (JSBoolean True, (gs, ws'), []))
      | (Pending, ws') \<Rightarrow>
          (case h of
             Accepted \<Rightarrow>
               (case onConnect ws' of
                  Inl e \<Rightarrow> None
                | Inr (ws'', evs) \<Rightarrow>
                    (let (gs', evs') = relay evs gs
                     in Some (Inr (JSBoolean True, (gs', ws''), evs'))))
           | Refused err \<Rightarrow>
               (let (ws'', evs) = onStompError err ws';
                    (gs', evs') = relay evs gs
                in Some (Inr (JSBoolean False, (gs', ws''),
                              evs' @ [GameError ''Connection failed''])))
           | Unanswered \<Rightarrow> None))"

section \<open>The event bus (src/utils/EventBus.js)\<close>

text \<open>
  \<open>listeners\<close> maps an event name to the array of its callbacks; the names are the
  dotted names the services use, own keys of the object.  A callback is a function,
  named here by a number (the same function subscribed twice is two entries of the
  array); what it does when called with the data is given by a table: the calls of
  \<open>subscribe\<close>, \<open>unsubscribe\<close> and \<open>clear\<close> it makes on the bus before it returns or
  throws, and whether it throws.  Whatever else a callback does, nested emissions
  included, does not touch the loop of the emission that called it.
\<close>

type_synonym listeners = "string \<Rightarrow> nat list option"

datatype bus_op = Subscribe string nat | Unsubscribe string nat | Clear string

type_synonym 'd behaviour = "nat \<Rightarrow> 'd \<Rightarrow> bus_op list \<times> bool"

definition subscribe :: "string \<Rightarrow> nat \<Rightarrow> listeners \<Rightarrow> listeners" where
  "subscribe ev callback ls =
     ls(ev \<mapsto> (case ls ev of None \<Rightarrow> [] | Some cbs \<Rightarrow> cbs) @ [callback])"

definition unsubscribe :: "string \<Rightarrow> nat \<Rightarrow> listeners \<Rightarrow> listeners" where
  "unsubscribe ev callback ls =
     (case ls ev of
        None \<Rightarrow> ls
      | Some cbs \<Rightarrow>
          (let cbs' = filter (\<lambda>cb. cb \<noteq> callback) cbs
           in if length cbs' = 0 then ls(ev := None) else ls(ev \<mapsto> cbs')))"

definition clear :: "string \<Rightarrow> listeners \<Rightarrow> listeners" where
  "clear ev ls = ls(ev := None)"

fun apply_bus_op :: "listeners \<Rightarrow> bus_op \<Rightarrow> listeners" where
  "apply_bus_op ls (Subscribe ev cb) = subscribe ev cb ls"
| "apply_bus_op ls (Unsubscribe ev cb) = unsubscribe ev cb ls"
| "apply_bus_op ls (Clear ev) = clear ev ls"

text \<open>
  The state of an emission: the listeners table, the callbacks called so far, and the
  callbacks whose exception was caught and written to the console.
\<close>

record emission =
  em_listeners :: listeners
  em_called :: "nat list"
  em_caught :: "nat list"

text \<open>
  \<open>forEach\<close> walks the array it was called on up to the length it had at the start.
  \<open>unsubscribe\<close> installs a filtered copy and \<open>push\<close> only appends, so the elements
  walked are those of the array at the start of the emission.  The body is the
  \<open>try\<close>/\<open>catch\<close>: a throwing callback is logged and the loop goes on.
\<close>

fun emit_loop :: "'d behaviour \<Rightarrow> 'd \<Rightarrow> nat list \<Rightarrow> emission \<Rightarrow> emission" where
  "emit_loop B d [] st = st"
| "emit_loop B d (cb # cbs) st =
     (let (ops, throws) = B cb d;
          st' = st\<lparr> em_listeners := foldl apply_bus_op (em_listeners st) ops,
                    em_called := em_called st @ [cb],
                    em_caught := (if throws then em_caught st @ [cb] else em_caught st) \<rparr>
      in emit_loop B d cbs st')"

definition emit :: "'d behaviour \<Rightarrow> string \<Rightarrow> 'd \<Rightarrow> listeners \<Rightarrow> emission" where
  "emit B ev d ls =
     (case ls ev of
        None \<Rightarrow> \<lparr> em_listeners = ls, em_called = [], em_caught = [] \<rparr>
      | Some cbs \<Rightarrow> emit_loop B d cbs \<lparr> em_listeners = ls, em_called = [], em_caught = [] \<rparr>)"

section \<open>The animation gate (src/pixi/components/game/MoveManager.js)\<close>

text \<open>
  The fields of \<open>MoveManager\<close> that the gate reads and writes.  \<open>movePanel\<close> is the panel
  on screen, with the moves it was built from.  A method returns the new state and the
  batches for which \<open>createMovePanel\<close> built a panel, in order.
\<close>

record move_manager =
  currentMoves :: "move_option list"
  movePanel :: "move_option list option"
  isProcessingMove :: bool
  isAnimating :: bool
  pendingMoves :: "move_option list option"
  alpha :: nat

definition showAvailableMoves ::
  "move_option list \<Rightarrow> move_manager \<Rightarrow> move_manager \<times> move_option list list" where
  "showAvailableMoves moves mm =
     (if isAnimating mm then (mm\<lparr> pendingMoves := Some moves \<rparr>, [])
      else (mm\<lparr> isProcessingMove := False, currentMoves := moves, alpha := 1,
                 movePanel := Some moves \<rparr>, [moves]))"

text \<open>\<open>onAnimationComplete\<close>: an array is truthy, so the test is the presence of a batch.\<close>

definition onAnimationComplete :: "move_manager \<Rightarrow> move_manager \<times> move_option list list" where
  "onAnimationComplete mm =
     (case pendingMoves mm of
        Some moves \<Rightarrow>
          (let (mm', shown) = showAvailableMoves moves mm
           in (mm'\<lparr> pendingMoves := None, isProcessingMove := False \<rparr>, shown))
      | None \<Rightarrow> (mm\<lparr> isProcessingMove := False \<rparr>, []))"

definition setAnimationState :: "bool \<Rightarrow> move_manager \<Rightarrow> move_manager \<times> move_option list list" where
  "setAnimationState animating mm =
     (let mm' = mm\<lparr> isAnimating := animating \<rparr>
      in if \<not> animating then onAnimationComplete mm' else (mm', []))"

definition resetProcessingState :: "move_manager \<Rightarrow> move_manager" where
  "resetProcessingState mm = mm\<lparr> isProcessingMove := False \<rparr>"

text \<open>
  The two handlers \<open>GameBoardContainer\<close> registers: \<open>moves:available\<close> and
  \<open>pieces:animationStateChanged\<close>.
\<close>

datatype gate_event = MovesAvailable "move_option list" | AnimationStateChanged bool

fun gate_step :: "gate_event \<Rightarrow> move_manager \<Rightarrow> move_manager \<times> move_option list list" where
  "gate_step (MovesAvailable moves) mm = showAvailableMoves moves (resetProcessingState mm)"
| "gate_step (AnimationStateChanged animating) mm = setAnimationState animating mm"

fun run_gate :: "gate_event list \<Rightarrow> move_manager \<Rightarrow> move_manager \<times> move_option list list" where
  "run_gate [] mm = (mm, [])"
| "run_gate (e # es) mm =
     (let (mm', shown) = gate_step e mm;
          (mm'', shown') = run_gate es mm'
      in (mm'', shown @ shown'))"


section \<open>Concrete states\<close>

text \<open>
  The values at which the theorems below are instantiated: a piece on a cell, a snapshot
  with given pieces and game-over flag, a \<open>GameService\<close> that holds a snapshot, the
  \<open>WebSocketService\<close> as its constructor leaves it and as \<open>onConnect\<close> leaves it after a
  first \<open>connect\<close>, and a \<open>MoveManager\<close> as its constructor leaves it.
\<close>

definition piece_at :: "string \<Rightarrow> int \<Rightarrow> int \<Rightarrow> piece" where
  "piece_at i r c =
     \<lparr> piece_id = i, color = ''red'', position = \<lparr> row = r, col = c \<rparr>,
       atHome = False, inSafeZone = False, finished = False \<rparr>"

definition snapshot_with :: "piece list \<Rightarrow> bool \<Rightarrow> game_state" where
  "snapshot_with ps over =
     \<lparr> dice = \<lparr> die1 = 3, die2 = 4 \<rparr>, currentPlayerId = ''user-1'',
       currentPlayerName = ''Ann'', players = [''Ann'', ''Bob''], pieces = ps,
       gameStatus = ''IN_PROGRESS'', gameOver = over, winner = None \<rparr>"

definition service_holding :: "game_state option \<Rightarrow> game_service" where
  "service_holding st = \<lparr> currentState = st, isConnected = True, currentGameId = Some ''ABCD'' \<rparr>"

definition offline_service :: game_service where
  "offline_service = \<lparr> currentState = None, isConnected = False, currentGameId = None \<rparr>"

definition fresh_ws :: ws_service where
  "fresh_ws =
     \<lparr> stompClient = None, connected = False, connecting = False, sessionId = ''user-1'',
       ws_currentGameId = None, subscriptions = [] \<rparr>"

definition connected_ws :: ws_service where
  "connected_ws =
     \<lparr> stompClient = Some \<lparr> activated = True, subscribed = [''/user/queue/response''],
                            unsubscribed = [], published = [] \<rparr>,
       connected = True, connecting = False, sessionId = ''user-1'',
       ws_currentGameId = None, subscriptions = [(''personal.queue'', 0)] \<rparr>"

text \<open>The connected service after the client reported an error: the transport is down.\<close>

definition dropped_ws :: ws_service where
  "dropped_ws = fst (onStompError ''Lost connection'' connected_ws)"

definition created_ack :: frame where
  "created_ack =
     \<lparr> frame_type = ''GAME_CREATED'', success = True, message = Some ''Game ABCD created'',
       data = None \<rparr>"

text \<open>A sequence of creation acks handled one after the other; an exception ends it.\<close>

fun handle_acks :: "frame list \<Rightarrow> ws_service \<Rightarrow> js_error + (ws_service \<times> event list)" where
  "handle_acks [] ws = Inr (ws, [])"
| "handle_acks (r # rs) ws =
     (case handleGameCreated r ws of
        Inl e \<Rightarrow> Inl e
      | Inr (ws', evs) \<Rightarrow>
          (case handle_acks rs ws' of
             Inl e \<Rightarrow> Inl e
           | Inr (ws'', evs') \<Rightarrow> Inr (ws'', evs @ evs')))"

text \<open>The destinations of all \<open>subscribe\<close> calls made on the client of a resulting state.\<close>

definition subscribe_calls :: "js_error + (ws_service \<times> event list) \<Rightarrow> string list" where
  "subscribe_calls r =
     (case r of
        Inl _ \<Rightarrow> []
      | Inr (ws, _) \<Rightarrow> (case stompClient ws of None \<Rightarrow> [] | Some c \<Rightarrow> subscribed c))"

text \<open>The value an action method returned, when it returned.\<close>

definition returned :: "action_result \<Rightarrow> jsval option" where
  "returned r = (case r of Inl _ \<Rightarrow> None | Inr (v, _, _) \<Rightarrow> Some v)"

definition emitted :: "action_result \<Rightarrow> event list" where
  "emitted r = (case r of Inl _ \<Rightarrow> [] | Inr (_, _, evs) \<Rightarrow> evs)"

definition idle_manager :: move_manager where
  "idle_manager =
     \<lparr> currentMoves = [], movePanel = None, isProcessingMove = False, isAnimating = False,
       pendingMoves = None, alpha = 0 \<rparr>"

definition option_numbered :: "int \<Rightarrow> string \<Rightarrow> move_option" where
  "option_numbered n d = \<lparr> number = Num n, description = d, originalLine = d \<rparr>"

text \<open>
  A table of callbacks for the bus: callback 1 throws, callback 2 unsubscribes callback
  3 from \<open>dice.updated\<close> and subscribes callback 4 to it, the others return normally.
\<close>

definition sample_behaviour :: "unit behaviour" where
  "sample_behaviour cb d =
     (if cb = 1 then ([], True)
      else if cb = 2 then ([Unsubscribe ''dice.updated'' 3, Subscribe ''dice.updated'' 4], False)
      else ([], False))"


section \<open>The piece-movement diff\<close>

lemma movement_step_moved_from:
  "movement_step old acc p = acc @ (case moved_from old p of None \<Rightarrow> [] | Some m \<Rightarrow> [m])"
  by (simp add: movement_step_def moved_from_def split: option.splits)

lemma foldl_movement_step:
  "foldl (movement_step old) acc new = acc @ List.map_filter (moved_from old) new"
proof (induction new arbitrary: acc)
  case Nil
  show ?case by simp
next
  case (Cons p ps)
  have "foldl (movement_step old) acc (p # ps)
          = foldl (movement_step old) (movement_step old acc p) ps"
    by simp
  also have "\<dots> = movement_step old acc p @ List.map_filter (moved_from old) ps"
    by (rule Cons.IH)
  also have "\<dots> = acc @ List.map_filter (moved_from old) (p # ps)"
    by (simp only: movement_step_moved_from) (simp split: option.splits)
  finally show ?case .
qed

lemma calculatePieceMovements_map_filter:
  "calculatePieceMovements old new = List.map_filter (moved_from old) new"
  by (simp add: calculatePieceMovements_def foldl_movement_step)

lemma moved_from_id: "moved_from old p = Some m \<Longrightarrow> mv_pieceId m = piece_id p"
  by (auto simp: moved_from_def movement_record_def split: option.splits if_splits)

lemma movement_ids:
  "map mv_pieceId (calculatePieceMovements old new)
     = map piece_id (filter (\<lambda>p. moved_from old p \<noteq> None) new)"
  unfolding calculatePieceMovements_map_filter
  by (induction new) (auto simp: moved_from_id split: option.splits)

lemma set_map_filter_conv:
  "set (List.map_filter f xs) = {y. \<exists>x\<in>set xs. f x = Some y}"
  by (induction xs) (auto split: option.splits)

lemma find_distinct_ids:
  "distinct (map piece_id old) \<Longrightarrow>
     find (\<lambda>q. piece_id q = i) old = Some q \<longleftrightarrow> q \<in> set old \<and> piece_id q = i"
  by (induction old) auto

lemma moved_from_Some_iff:
  "distinct (map piece_id old) \<Longrightarrow>
   moved_from old p = Some m \<longleftrightarrow>
     (\<exists>q\<in>set old. piece_id q = piece_id p
        \<and> (row (position q) \<noteq> row (position p) \<or> col (position q) \<noteq> col (position p))
        \<and> m = movement_record q p)"
proof (cases "find (\<lambda>q. piece_id q = piece_id p) old")
  case None
  then have "\<not> (\<exists>q\<in>set old. piece_id q = piece_id p)"
    by (auto simp: find_None_iff)
  then show ?thesis using None by (auto simp: moved_from_def)
next
  case (Some q0)
  assume d: "distinct (map piece_id old)"
  have uniq: "q = q0" if "q \<in> set old" "piece_id q = piece_id p" for q
    using find_distinct_ids [OF d, of "piece_id p" q] Some that by simp
  have q0: "q0 \<in> set old" "piece_id q0 = piece_id p"
    using find_distinct_ids [OF d, of "piece_id p" q0] Some by simp_all
  show ?thesis
  proof
    assume "moved_from old p = Some m"
    then have "(row (position q0) \<noteq> row (position p) \<or> col (position q0) \<noteq> col (position p))
        \<and> m = movement_record q0 p"
      using Some by (auto simp: moved_from_def split: if_splits)
    then show "\<exists>q\<in>set old. piece_id q = piece_id p
        \<and> (row (position q) \<noteq> row (position p) \<or> col (position q) \<noteq> col (position p))
        \<and> m = movement_record q p"
      using q0 by blast
  next
    assume "\<exists>q\<in>set old. piece_id q = piece_id p
        \<and> (row (position q) \<noteq> row (position p) \<or> col (position q) \<noteq> col (position p))
        \<and> m = movement_record q p"
    then obtain q where q: "q \<in> set old" "piece_id q = piece_id p"
        "row (position q) \<noteq> row (position p) \<or> col (position q) \<noteq> col (position p)"
        "m = movement_record q p" by blast
    have "q = q0" using uniq q(1,2) by blast
    then show "moved_from old p = Some m"
      using Some q(3,4) by (auto simp: moved_from_def)
  qed
qed

subsection \<open>The names of the events of one update\<close>

lemma dice_events_name:
  "e \<in> set (dice_events oldState newState) \<Longrightarrow> event_name e = ''dice.updated''"
  by (auto simp: dice_events_def split: option.splits if_splits)

lemma piece_events_name:
  "e \<in> set (piece_events oldState newState) \<Longrightarrow> event_name e = ''pieces.moved''"
  by (auto simp: piece_events_def Let_def split: option.splits if_splits)

lemma turn_events_name:
  "e \<in> set (turn_events oldState newState) \<Longrightarrow> event_name e = ''turn.changed''"
  by (auto simp: turn_events_def split: option.splits if_splits)

lemma game_over_events_name:
  "e \<in> set (game_over_events oldState newState) \<Longrightarrow> event_name e = ''game.ended''"
  by (auto simp: game_over_events_def split: option.splits if_splits)

lemma filter_other_name:
  "(\<And>e. e \<in> set evs \<Longrightarrow> event_name e = nm') \<Longrightarrow> nm' \<noteq> nm \<Longrightarrow>
     filter (\<lambda>e. event_name e = nm) evs = []"
  by (auto simp: filter_empty_conv)

lemma filter_same_name:
  "(\<And>e. e \<in> set evs \<Longrightarrow> event_name e = nm) \<Longrightarrow>
     filter (\<lambda>e. event_name e = nm) evs = evs"
  by (auto simp: filter_id_conv)

lemma pieces_moved_of_update:
  "filter (\<lambda>e. event_name e = ''pieces.moved'') (snd (updateGameState gs newState))
     = piece_events (currentState gs) newState"
proof -
  have d: "filter (\<lambda>e. event_name e = ''pieces.moved'') (dice_events (currentState gs) newState) = []"
    by (rule filter_other_name [OF dice_events_name]) simp_all
  have t: "filter (\<lambda>e. event_name e = ''pieces.moved'') (turn_events (currentState gs) newState) = []"
    by (rule filter_other_name [OF turn_events_name]) simp_all
  have g: "filter (\<lambda>e. event_name e = ''pieces.moved'') (game_over_events (currentState gs) newState) = []"
    by (rule filter_other_name [OF game_over_events_name]) simp_all
  have p: "filter (\<lambda>e. event_name e = ''pieces.moved'') (piece_events (currentState gs) newState)
             = piece_events (currentState gs) newState"
    by (rule filter_same_name [OF piece_events_name])
  show ?thesis
    by (simp add: updateGameState_def Let_def emitStateChangeEvents_def d t g p)
qed

lemma game_ended_of_update:
  "filter (\<lambda>e. event_name e = ''game.ended'') (snd (updateGameState gs newState))
     = game_over_events (currentState gs) newState"
proof -
  have d: "filter (\<lambda>e. event_name e = ''game.ended'') (dice_events (currentState gs) newState) = []"
    by (rule filter_other_name [OF dice_events_name]) simp_all
  have t: "filter (\<lambda>e. event_name e = ''game.ended'') (turn_events (currentState gs) newState) = []"
    by (rule filter_other_name [OF turn_events_name]) simp_all
  have p: "filter (\<lambda>e. event_name e = ''game.ended'') (piece_events (currentState gs) newState) = []"
    by (rule filter_other_name [OF piece_events_name]) simp_all
  have g: "filter (\<lambda>e. event_name e = ''game.ended'') (game_over_events (currentState gs) newState)
             = game_over_events (currentState gs) newState"
    by (rule filter_same_name [OF game_over_events_name])
  show ?thesis
    by (simp add: updateGameState_def Let_def emitStateChangeEvents_def d t g p)
qed

lemma currentState_after_update:
  "currentState (fst (updateGameState gs newState)) = Some newState"
  by (simp add: updateGameState_def Let_def)

text \<open>
  Claim C1, as the code has it.  For two consecutive snapshots whose piece ids are
  pairwise distinct within each snapshot, the batch computed by
  \<open>calculatePieceMovements\<close> has exactly one record per piece id that occurs in both
  snapshots with a different row or column, and no other record; each record is built
  from the old and the new piece of that id; a piece whose id is not in the old snapshot
  gets no record; and \<open>updateGameState\<close> emits \<open>pieces.moved\<close> once with the batch when
  the batch is not empty, and not at all when it is empty.
\<close>

theorem piece_movement_diff_exact:
  assumes cur: "currentState gs = Some old"
    and dold: "distinct (map piece_id (pieces old))"
    and dnew: "distinct (map piece_id (pieces new))"
    and ms: "ms = calculatePieceMovements (pieces old) (pieces new)"
  shows "distinct (map mv_pieceId ms)
    \<and> set (map mv_pieceId ms) =
        {i. \<exists>p\<in>set (pieces new). \<exists>q\<in>set (pieces old). piece_id p = i \<and> piece_id q = i
              \<and> (row (position q) \<noteq> row (position p) \<or> col (position q) \<noteq> col (position p))}
    \<and> (\<forall>m\<in>set ms. \<exists>p\<in>set (pieces new). \<exists>q\<in>set (pieces old).
          piece_id q = piece_id p \<and> m = movement_record q p)
    \<and> (\<forall>p\<in>set (pieces new). piece_id p \<notin> piece_id ` set (pieces old)
          \<longrightarrow> piece_id p \<notin> set (map mv_pieceId ms))
    \<and> filter (\<lambda>e. event_name e = ''pieces.moved'') (snd (updateGameState gs new))
         = (if ms = [] then [] else [PiecesMoved ms])"
proof -
  have ids: "map mv_pieceId ms
               = map piece_id (filter (\<lambda>p. moved_from (pieces old) p \<noteq> None) (pieces new))"
    by (simp add: ms movement_ids)
  have c1: "distinct (map mv_pieceId ms)"
    unfolding ids using dnew by (rule distinct_map_filter)
  have mem: "m \<in> set ms \<longleftrightarrow> (\<exists>p\<in>set (pieces new). moved_from (pieces old) p = Some m)" for m
    by (auto simp: ms calculatePieceMovements_map_filter set_map_filter_conv)
  have c2: "set (map mv_pieceId ms) =
        {i. \<exists>p\<in>set (pieces new). \<exists>q\<in>set (pieces old). piece_id p = i \<and> piece_id q = i
              \<and> (row (position q) \<noteq> row (position p) \<or> col (position q) \<noteq> col (position p))}"
    (is "?L = ?R")
  proof (rule set_eqI)
    fix i
    show "i \<in> ?L \<longleftrightarrow> i \<in> ?R"
    proof
      assume "i \<in> ?L"
      then obtain m where m: "m \<in> set ms" "mv_pieceId m = i" by auto
      then obtain p where p: "p \<in> set (pieces new)" "moved_from (pieces old) p = Some m"
        using mem by blast
      from p(2) obtain q where "q \<in> set (pieces old)" "piece_id q = piece_id p"
        "row (position q) \<noteq> row (position p) \<or> col (position q) \<noteq> col (position p)"
        using moved_from_Some_iff [OF dold] by blast
      moreover have "piece_id p = i" using moved_from_id [OF p(2)] m(2) by simp
      ultimately show "i \<in> ?R" using p(1) by auto
    next
      assume "i \<in> ?R"
      then obtain p q where pq: "p \<in> set (pieces new)" "q \<in> set (pieces old)"
        "piece_id p = i" "piece_id q = i"
        "row (position q) \<noteq> row (position p) \<or> col (position q) \<noteq> col (position p)"
        by blast
      then have "moved_from (pieces old) p = Some (movement_record q p)"
        using moved_from_Some_iff [OF dold, of p "movement_record q p"] by auto
      then have "movement_record q p \<in> set ms" using mem pq(1) by blast
      moreover have "mv_pieceId (movement_record q p) = i"
        by (simp add: movement_record_def pq(3))
      ultimately show "i \<in> ?L" by force
    qed
  qed
  have c3: "\<forall>m\<in>set ms. \<exists>p\<in>set (pieces new). \<exists>q\<in>set (pieces old).
          piece_id q = piece_id p \<and> m = movement_record q p"
  proof
    fix m assume "m \<in> set ms"
    then obtain p where p: "p \<in> set (pieces new)" "moved_from (pieces old) p = Some m"
      using mem by blast
    from p(2) obtain q where "q \<in> set (pieces old)" "piece_id q = piece_id p"
      "m = movement_record q p"
      using moved_from_Some_iff [OF dold, of p m] by blast
    then show "\<exists>p\<in>set (pieces new). \<exists>q\<in>set (pieces old).
          piece_id q = piece_id p \<and> m = movement_record q p" using p(1) by blast
  qed
  have c4: "\<forall>p\<in>set (pieces new). piece_id p \<notin> piece_id ` set (pieces old)
          \<longrightarrow> piece_id p \<notin> set (map mv_pieceId ms)"
  proof (intro ballI impI notI)
    fix p
    assume absent: "piece_id p \<notin> piece_id ` set (pieces old)"
      and "piece_id p \<in> set (map mv_pieceId ms)"
    then obtain q where "q \<in> set (pieces old)" "piece_id q = piece_id p"
      unfolding c2 by blast
    then have "piece_id p \<in> piece_id ` set (pieces old)" by (metis imageI)
    with absent show False by simp
  qed
  have c5: "filter (\<lambda>e. event_name e = ''pieces.moved'') (snd (updateGameState gs new))
         = (if ms = [] then [] else [PiecesMoved ms])"
    by (simp add: pieces_moved_of_update cur piece_events_def Let_def ms)
  from c1 c2 c3 c4 c5 show ?thesis by blast
qed

text \<open>
  The theorem at two snapshots of three pieces: \<open>R1\<close> moves, \<open>R2\<close> stays, \<open>R3\<close> is new.
  The batch is the one record of \<open>R1\<close>.
\<close>

theorem piece_movement_diff_exact_witness:
  "map mv_pieceId
     (calculatePieceMovements [piece_at ''R1'' 0 0, piece_at ''R2'' 5 5]
        [piece_at ''R1'' 0 1, piece_at ''R2'' 5 5, piece_at ''R3'' 7 7]) = [''R1'']
   \<and> filter (\<lambda>e. event_name e = ''pieces.moved'')
       (snd (updateGameState
          (service_holding (Some (snapshot_with [piece_at ''R1'' 0 0, piece_at ''R2'' 5 5] False)))
          (snapshot_with [piece_at ''R1'' 0 1, piece_at ''R2'' 5 5, piece_at ''R3'' 7 7] False)))
     = [PiecesMoved (calculatePieceMovements [piece_at ''R1'' 0 0, piece_at ''R2'' 5 5]
          [piece_at ''R1'' 0 1, piece_at ''R2'' 5 5, piece_at ''R3'' 7 7])]"
proof -
  let ?old = "snapshot_with [piece_at ''R1'' 0 0, piece_at ''R2'' 5 5] False"
  let ?new = "snapshot_with [piece_at ''R1'' 0 1, piece_at ''R2'' 5 5, piece_at ''R3'' 7 7] False"
  let ?ms = "calculatePieceMovements (pieces ?old) (pieces ?new)"
  have h1: "currentState (service_holding (Some ?old)) = Some ?old"
    by (simp add: service_holding_def)
  have h2: "distinct (map piece_id (pieces ?old))"
    by (simp add: snapshot_with_def piece_at_def)
  have h3: "distinct (map piece_id (pieces ?new))"
    by (simp add: snapshot_with_def piece_at_def)
  have ids: "map mv_pieceId ?ms = [''R1'']"
    by (simp add: calculatePieceMovements_def movement_step_def movement_record_def
        snapshot_with_def piece_at_def)
  then have ne: "?ms \<noteq> []" by auto
  have "filter (\<lambda>e. event_name e = ''pieces.moved'')
          (snd (updateGameState (service_holding (Some ?old)) ?new)) = [PiecesMoved ?ms]"
    using piece_movement_diff_exact [OF h1 h2 h3 refl] ne by simp
  moreover have "pieces ?old = [piece_at ''R1'' 0 0, piece_at ''R2'' 5 5]"
    and "pieces ?new = [piece_at ''R1'' 0 1, piece_at ''R2'' 5 5, piece_at ''R3'' 7 7]"
    by (simp_all add: snapshot_with_def)
  ultimately show ?thesis using ids by simp
qed

text \<open>
  Claim C1 as stated does not hold for every pair of snapshots.  When the new snapshot
  carries the id \<open>R1\<close> twice, the batch holds two records for that one id.
\<close>

theorem piece_movement_duplicate_id_counterexample:
  "snd (updateGameState
          (service_holding (Some (snapshot_with [piece_at ''R1'' 0 0] False)))
          (snapshot_with [piece_at ''R1'' 1 1, piece_at ''R1'' 2 2] False))
   = [PiecesMoved [movement_record (piece_at ''R1'' 0 0) (piece_at ''R1'' 1 1),
                   movement_record (piece_at ''R1'' 0 0) (piece_at ''R1'' 2 2)],
      GameStateUpdated (Some (snapshot_with [piece_at ''R1'' 0 0] False))
        (snapshot_with [piece_at ''R1'' 1 1, piece_at ''R1'' 2 2] False)]
   \<and> mv_pieceId (movement_record (piece_at ''R1'' 0 0) (piece_at ''R1'' 1 1)) = ''R1''
   \<and> mv_pieceId (movement_record (piece_at ''R1'' 0 0) (piece_at ''R1'' 2 2)) = ''R1''"
  by (simp add: updateGameState_def Let_def emitStateChangeEvents_def dice_events_def
      piece_events_def turn_events_def game_over_events_def service_holding_def
      snapshot_with_def calculatePieceMovements_def movement_step_def piece_at_def
      movement_record_def)

section \<open>The same snapshot twice\<close>

lemma no_movement_same_pieces:
  assumes "distinct (map piece_id ps)"
  shows "calculatePieceMovements ps ps = []"
proof -
  have "moved_from ps p = None" if "p \<in> set ps" for p
  proof -
    have "find (\<lambda>q. piece_id q = piece_id p) ps = Some p"
      using find_distinct_ids [OF assms] that by simp
    then show ?thesis by (simp add: moved_from_def)
  qed
  then show ?thesis
    unfolding calculatePieceMovements_map_filter
    by (simp add: map_filter_def)
qed

text \<open>
  Claim C5, as the code has it.  For a snapshot \<open>A\<close> whose piece ids are pairwise
  distinct, \<open>updateGameState\<close> with \<open>A\<close> while \<open>A\<close> is the current snapshot leaves the
  service as it is and emits one event, the general \<open>game.state.updated\<close> with both
  snapshots: no dice, piece, turn or game-over event.
\<close>

theorem update_same_snapshot:
  assumes "currentState gs = Some A" and "distinct (map piece_id (pieces A))"
  shows "updateGameState gs A = (gs, [GameStateUpdated (Some A) A])"
  using assms
  by (simp add: updateGameState_def Let_def emitStateChangeEvents_def dice_events_def
      piece_events_def turn_events_def game_over_events_def no_movement_same_pieces)

theorem update_same_snapshot_witness:
  "updateGameState
     (service_holding (Some (snapshot_with [piece_at ''R1'' 0 0, piece_at ''B1'' 0 0] True)))
     (snapshot_with [piece_at ''R1'' 0 0, piece_at ''B1'' 0 0] True)
   = (service_holding (Some (snapshot_with [piece_at ''R1'' 0 0, piece_at ''B1'' 0 0] True)),
      [GameStateUpdated (Some (snapshot_with [piece_at ''R1'' 0 0, piece_at ''B1'' 0 0] True))
         (snapshot_with [piece_at ''R1'' 0 0, piece_at ''B1'' 0 0] True)])"
proof -
  let ?A = "snapshot_with [piece_at ''R1'' 0 0, piece_at ''B1'' 0 0] True"
  have h1: "currentState (service_holding (Some ?A)) = Some ?A"
    by (simp add: service_holding_def)
  have h2: "distinct (map piece_id (pieces ?A))"
    by (simp add: snapshot_with_def piece_at_def)
  show ?thesis by (rule update_same_snapshot [OF h1 h2])
qed

text \<open>
  Claim C5 as stated does not hold for every snapshot.  When a snapshot carries the id
  \<open>R1\<close> on two cells, each piece is compared with the first piece of its id, and the
  update of the snapshot by itself emits \<open>pieces.moved\<close>.
\<close>

theorem update_same_snapshot_duplicate_id_counterexample:
  "map event_name
     (snd (updateGameState
        (service_holding (Some (snapshot_with [piece_at ''R1'' 0 0, piece_at ''R1'' 1 1] False)))
        (snapshot_with [piece_at ''R1'' 0 0, piece_at ''R1'' 1 1] False)))
   = [''pieces.moved'', ''game.state.updated'']"
  by (simp add: updateGameState_def Let_def emitStateChangeEvents_def dice_events_def
      piece_events_def turn_events_def game_over_events_def service_holding_def
      snapshot_with_def calculatePieceMovements_def movement_step_def piece_at_def)

section \<open>The game-over edge\<close>

text \<open>
  Claim C3.  Whatever the service held before, five snapshots with the game-over flags
  false, false, true, true, true give zero, zero, one, zero and zero \<open>game.ended\<close>
  events in the five updates: the event fires once, in the update that goes from not
  over to over.  In general an update emits \<open>game.ended\<close> exactly when the new snapshot
  is over and the old one is absent or not over.
\<close>

theorem game_over_edge_triggered:
  assumes "map gameOver [a, b, c, d, e] = [False, False, True, True, True]"
  shows "map (\<lambda>evs. filter (\<lambda>ev. event_name ev = ''game.ended'') evs)
           (snd (run_updates gs [a, b, c, d, e]))
         = [[], [], [GameEnded (winner c) (gameStatus c)], [], []]
     \<and> filter (\<lambda>ev. event_name ev = ''game.ended'') (snd (updateGameState gs n))
         = (if gameOver n \<and> (case currentState gs of None \<Rightarrow> True | Some os \<Rightarrow> \<not> gameOver os)
            then [GameEnded (winner n) (gameStatus n)] else [])"
proof -
  have step: "run_updates g (s # ss)
      = (fst (run_updates (fst (updateGameState g s)) ss),
         snd (updateGameState g s) # snd (run_updates (fst (updateGameState g s)) ss))" for g s ss
    by (simp add: split_def Let_def)
  have flags: "\<not> gameOver a" "\<not> gameOver b" "gameOver c" "gameOver d" "gameOver e"
    using assms by simp_all
  have "map (\<lambda>evs. filter (\<lambda>ev. event_name ev = ''game.ended'') evs)
           (snd (run_updates gs [a, b, c, d, e]))
         = [[], [], [GameEnded (winner c) (gameStatus c)], [], []]"
    by (simp only: step) 
       (simp add: game_ended_of_update currentState_after_update game_over_events_def flags)
  moreover have "filter (\<lambda>ev. event_name ev = ''game.ended'') (snd (updateGameState gs n))
         = (if gameOver n \<and> (case currentState gs of None \<Rightarrow> True | Some os \<Rightarrow> \<not> gameOver os)
            then [GameEnded (winner n) (gameStatus n)] else [])"
    by (simp add: game_ended_of_update game_over_events_def)
  ultimately show ?thesis by blast
qed

theorem game_over_edge_triggered_witness:
  "map (\<lambda>evs. length (filter (\<lambda>ev. event_name ev = ''game.ended'') evs))
     (snd (run_updates offline_service
        [snapshot_with [] False, snapshot_with [] False, snapshot_with [] True,
         snapshot_with [] True, snapshot_with [] True]))
   = [0, 0, 1, 0, 0]"
proof -
  have h: "map gameOver [snapshot_with [] False, snapshot_with [] False, snapshot_with [] True,
         snapshot_with [] True, snapshot_with [] True] = [False, False, True, True, True]"
    by (simp add: snapshot_with_def)
  have "map (\<lambda>evs. filter (\<lambda>ev. event_name ev = ''game.ended'') evs)
     (snd (run_updates offline_service
        [snapshot_with [] False, snapshot_with [] False, snapshot_with [] True,
         snapshot_with [] True, snapshot_with [] True]))
     = [[], [], [GameEnded (winner (snapshot_with [] True)) (gameStatus (snapshot_with [] True))],
        [], []]"
    using game_over_edge_triggered [OF h, of offline_service] by blast
  then have "map length (map (\<lambda>evs. filter (\<lambda>ev. event_name ev = ''game.ended'') evs)
     (snd (run_updates offline_service
        [snapshot_with [] False, snapshot_with [] False, snapshot_with [] True,
         snapshot_with [] True, snapshot_with [] True]))) = [0, 0, 1, 0, 0]"
    by (simp only: list.map list.size) simp
  then show ?thesis by (simp only: map_map o_def)
qed

section \<open>The animation gate\<close>

text \<open>
  Claim C2.  From any state of the gate, the events animation start, a first batch, a
  second batch, animation complete build exactly one panel, for the second batch; the
  pending slot is empty afterwards.  A batch that arrives while \<open>isAnimating\<close> is set
  goes to the pending slot, replacing what was there, and builds no panel; when the
  animation state changes to false the pending batch is shown once and the slot cleared.
\<close>

theorem animation_gate_latest_wins:
  "run_gate [AnimationStateChanged True, MovesAvailable batch1, MovesAvailable batch2,
             AnimationStateChanged False] mm
     = (mm\<lparr> currentMoves := batch2, movePanel := Some batch2, isProcessingMove := False,
            isAnimating := False, pendingMoves := None, alpha := 1 \<rparr>, [batch2])
   \<and> (isAnimating mm \<longrightarrow>
        showAvailableMoves moves mm = (mm\<lparr> pendingMoves := Some moves \<rparr>, []))
   \<and> (pendingMoves mm = Some moves \<longrightarrow>
        setAnimationState False mm
          = (mm\<lparr> currentMoves := moves, movePanel := Some moves, isProcessingMove := False,
                 isAnimating := False, pendingMoves := None, alpha := 1 \<rparr>, [moves]))"
  by (simp add: setAnimationState_def showAvailableMoves_def onAnimationComplete_def
      resetProcessingState_def Let_def)

theorem animation_gate_latest_wins_witness:
  "snd (run_gate [AnimationStateChanged True,
                  MovesAvailable [option_numbered 1 ''Move piece A''],
                  MovesAvailable [option_numbered 2 ''Move piece B''],
                  AnimationStateChanged False] idle_manager)
     = [[option_numbered 2 ''Move piece B'']]
   \<and> showAvailableMoves [option_numbered 2 ''Move piece B'']
        (idle_manager\<lparr> isAnimating := True, pendingMoves := Some [option_numbered 1 ''Move piece A''] \<rparr>)
     = (idle_manager\<lparr> isAnimating := True, pendingMoves := Some [option_numbered 2 ''Move piece B''] \<rparr>, [])"
proof -
  have h: "isAnimating (idle_manager\<lparr> isAnimating := True,
              pendingMoves := Some [option_numbered 1 ''Move piece A''] \<rparr>)"
    by simp
  show ?thesis
    using h animation_gate_latest_wins [of "[option_numbered 1 ''Move piece A'']"
        "[option_numbered 2 ''Move piece B'']" idle_manager]
      animation_gate_latest_wins [of batch1 batch2
        "idle_manager\<lparr> isAnimating := True, pendingMoves := Some [option_numbered 1 ''Move piece A''] \<rparr>"
        "[option_numbered 2 ''Move piece B'']"]
    by simp
qed

section \<open>The duplicated creation ack\<close>

lemma extractGameId_ABCD: "extractGameId ''Game ABCD created'' = Some ''ABCD''"
  by (simp add: game_id_at_def is_word_char_def)

text \<open>
  Claim C4, as the code has it.  On a service with a client, handling the ack
  \<open>Game ABCD created\<close> twice extracts \<open>ABCD\<close> both times and calls \<open>subscribe\<close> on
  \<open>/topic/game/ABCD/events\<close> once per ack, two calls in all; \<open>game.created\<close> is emitted
  twice.  The \<open>subscriptions\<close> map keeps one entry under \<open>game.ABCD.events\<close>, which the
  second ack sets to the second subscription.
\<close>

theorem duplicated_creation_ack:
  assumes "stompClient ws = Some c" and "message r = Some ''Game ABCD created''"
  shows "extractGameId ''Game ABCD created'' = Some ''ABCD''
    \<and> handle_acks [r, r] ws
        = Inr (ws\<lparr> stompClient := Some (c\<lparr> subscribed := subscribed c
                        @ [''/topic/game/ABCD/events'', ''/topic/game/ABCD/events''] \<rparr>),
                   ws_currentGameId := Some ''ABCD'',
                   subscriptions := AList.update ''game.ABCD.events'' (Suc (length (subscribed c)))
                                      (subscriptions ws) \<rparr>,
               [GameCreated ''ABCD'', GameCreated ''ABCD''])"
  using assms
  by (simp add: handleGameCreated_def extractGameId_ABCD subscribeToGameEvents_def
      subscribe_as_def del: extractGameId.simps)

theorem duplicated_creation_ack_witness:
  "handle_acks [created_ack, created_ack] connected_ws
     = Inr (connected_ws\<lparr> stompClient := Some \<lparr> activated = True,
                subscribed = [''/user/queue/response'', ''/topic/game/ABCD/events'',
                              ''/topic/game/ABCD/events''],
                unsubscribed = [], published = [] \<rparr>,
              ws_currentGameId := Some ''ABCD'',
              subscriptions := [(''personal.queue'', 0), (''game.ABCD.events'', 2)] \<rparr>,
            [GameCreated ''ABCD'', GameCreated ''ABCD''])"
proof -
  have h1: "stompClient connected_ws = Some \<lparr> activated = True,
      subscribed = [''/user/queue/response''], unsubscribed = [], published = [] \<rparr>"
    by (simp add: connected_ws_def)
  have h2: "message created_ack = Some ''Game ABCD created''"
    by (simp add: created_ack_def)
  show ?thesis
    using duplicated_creation_ack [OF h1 h2]
    by (simp add: connected_ws_def)
qed

text \<open>
  Claim C4 as stated does not hold: after the connection and two acks the client has
  been asked twice to subscribe to the broadcast topic of the game.
\<close>

theorem duplicated_creation_ack_counterexample:
  "count_list (subscribe_calls (handle_acks [created_ack, created_ack] connected_ws))
     ''/topic/game/ABCD/events'' = 2"
  by (simp add: handleGameCreated_def extractGameId_ABCD subscribeToGameEvents_def
      subscribe_as_def subscribe_calls_def created_ack_def connected_ws_def
      del: extractGameId.simps)

section \<open>The range form of the move options\<close>













subsection \<open>Doubles\<close>


lemma bit_length_upper: "n < 2 ^ bit_length n"
proof (induction n rule: bit_length.induct)
  case (1 n)
  show ?case
  proof (cases "n \<le> 0")
    case True
    then show ?thesis by (simp add: bit_length.simps [of n])
  next
    case False
    then have ih: "n div 2 < 2 ^ bit_length (n div 2)" using "1.IH" by simp
    have "n < 2 * (n div 2 + 1)" by presburger
    also have "\<dots> \<le> 2 * 2 ^ bit_length (n div 2)" using ih by simp
    finally show ?thesis using False by (simp add: bit_length.simps [of n])
  qed
qed

lemma bit_length_lower: "0 < n \<Longrightarrow> 2 ^ (bit_length n - 1) \<le> n"
proof (induction n rule: bit_length.induct)
  case (1 n)
  show ?case
  proof (cases "n div 2 \<le> 0")
    case True
    then have "bit_length (n div 2) = 0" by (simp add: bit_length.simps [of "n div 2"])
    then show ?thesis using "1.prems" by (simp add: bit_length.simps [of n])
  next
    case False
    then have pos: "0 < n div 2" by simp
    have ih: "2 ^ (bit_length (n div 2) - 1) \<le> n div 2"
      using "1.IH" "1.prems" pos by simp
    have "0 < bit_length (n div 2)"
      using pos by (simp add: bit_length.simps [of "n div 2"])
    then have "(2::int) ^ bit_length (n div 2) = 2 * 2 ^ (bit_length (n div 2) - 1)"
      by (cases "bit_length (n div 2)") simp_all
    also have "\<dots> \<le> 2 * (n div 2)" using ih by simp
    also have "\<dots> \<le> n" by presburger
    finally show ?thesis using "1.prems" by (simp add: bit_length.simps [of n])
  qed
qed




text \<open>
  From \<open>2^54\<close> on two neighbouring doubles are at least four apart, so adding one to a
  double rounds back to it.
\<close>

lemma bit_length_eq:
  assumes "2 ^ k \<le> m" and "m < 2 ^ Suc k"
  shows "bit_length m = Suc k"
proof -
  have "(0::int) < 2 ^ k" by simp
  then have mpos: "0 < m" using assms(1) by linarith
  have "(2::int) ^ k < 2 ^ bit_length m"
    by (rule le_less_trans [OF assms(1) bit_length_upper])
  then have a: "k < bit_length m" by (simp add: power_strict_increasing_iff)
  have "(2::int) ^ (bit_length m - 1) < 2 ^ Suc k"
    by (rule le_less_trans [OF bit_length_lower [OF mpos] assms(2)])
  then have "bit_length m - 1 < Suc k" by (simp only: power_strict_increasing_iff)
  with a show ?thesis by simp
qed

lemma div_less_bound:
  assumes "(0::int) < c" and "a < b * c"
  shows "a div c < b"
proof (rule ccontr)
  assume "\<not> a div c < b"
  then have "b * c \<le> a div c * c" using assms(1) by (intro mult_right_mono) simp_all
  also have "\<dots> = a - a mod c" using div_mult_mod_eq [of a c] by linarith
  also have "\<dots> \<le> a" using pos_mod_sign [OF assms(1), of a] by simp
  finally show False using assms(2) by simp
qed

lemma div_mod_plus_one:
  assumes "(1::int) < d"
  shows "(a * d + 1) div d = a" and "(a * d + 1) mod d = 1"
  using assms by (simp_all add: div_pos_pos_trivial)

lemma double_succ_fixed:
  assumes d: "to_double n = Num v" and big: "2 ^ 54 \<le> v"
  shows "js_succ (Num v) = Num v"
proof -
  define sh where "sh = bit_length n - 53"
  define q where "q = n div 2 ^ sh"
  define q' where "q' = (if 2 ^ (sh - 1) < n mod 2 ^ sh \<or> (n mod 2 ^ sh = 2 ^ (sh - 1) \<and> odd q)
                         then q + 1 else q)"
  have large: "2 ^ 53 < n"
  proof (rule ccontr)
    assume "\<not> 2 ^ 53 < n"
    then have "to_double n = Num n" "n \<le> 2 ^ 53" by (simp_all add: to_double_def)
    with d big show False by simp
  qed
  have "(0::int) < 2 ^ 53" by simp
  then have npos: "0 < n" using large by linarith
  have unfold: "to_double n = (if 2 ^ 1024 \<le> q' * 2 ^ sh then PosInfinity else Num (q' * 2 ^ sh))"
    using large unfolding to_double_def sh_def q_def q'_def by (simp add: Let_def)
  then have v: "v = q' * 2 ^ sh" and fin: "q' * 2 ^ sh < 2 ^ 1024"
    using d by (auto split: if_splits)
  have "\<not> bit_length n \<le> 53"
  proof
    assume "bit_length n \<le> 53"
    then have "(2::int) ^ bit_length n \<le> 2 ^ 53" by (rule power_increasing) simp
    with bit_length_upper [of n] large show False by simp
  qed
  then have bl1: "bit_length n - 1 = 52 + sh" and bl: "bit_length n = 53 + sh"
    and sh1: "1 \<le> sh"
    unfolding sh_def by simp_all
  have "(2::int) ^ (bit_length n - 1) \<le> n" by (rule bit_length_lower [OF npos])
  then have "(2::int) ^ (52 + sh) \<le> n" by (simp only: bl1)
  then have low: "(2::int) ^ 52 * 2 ^ sh \<le> n" by (simp only: power_add)
  have "n < 2 ^ (53 + sh)" using bit_length_upper [of n] by (simp only: bl)
  then have up: "n < 2 ^ 53 * 2 ^ sh" by (simp only: power_add)
  have qlow: "(2::int) ^ 52 \<le> q"
  proof -
    have "(2::int) ^ 52 * 2 ^ sh div 2 ^ sh \<le> n div 2 ^ sh"
      using low by (rule zdiv_mono1) simp
    then show ?thesis unfolding q_def by simp
  qed
  have qup: "q < 2 ^ 53"
    unfolding q_def by (rule div_less_bound [OF _ up]) simp
  have q'low: "(2::int) ^ 52 \<le> q'" using qlow unfolding q'_def by simp
  have q'up: "q' \<le> 2 ^ 53" using qup unfolding q'_def by simp
  have succ: "js_succ (Num v) = to_double (v + 1)"
    using big by (simp add: double_of_int_def)
  have v53: "\<not> v + 1 \<le> 2 ^ 53" using big by simp
  show ?thesis
  proof (cases "q' = 2 ^ 53")
    case True
    then have vp: "v = 2 ^ (53 + sh)" by (simp add: v power_add)
    have b: "bit_length (v + 1) = Suc (53 + sh)"
    proof (rule bit_length_eq)
      show "2 ^ (53 + sh) \<le> v + 1" using vp by simp
      have "(1::int) < 2 ^ (53 + sh)" by (simp add: one_less_power)
      moreover have "(2::int) ^ Suc (53 + sh) = 2 * 2 ^ (53 + sh)" by (rule power_Suc)
      ultimately show "v + 1 < 2 ^ Suc (53 + sh)" using vp by linarith
    qed
    have s2: "bit_length (v + 1) - 53 = Suc sh" using b by simp
    have v2: "v = 2 ^ 52 * 2 ^ Suc sh" using vp by (simp add: power_add)
    have "(1::int) \<le> 2 ^ sh" by simp
    then have one: "(1::int) < 2 ^ Suc sh" unfolding power_Suc by linarith
    have dv: "(v + 1) div 2 ^ Suc sh = 2 ^ 52" "(v + 1) mod 2 ^ Suc sh = 1"
      unfolding v2 using div_mod_plus_one [OF one, of "2 ^ 52"] by simp_all
    have half: "(1::int) < 2 ^ sh" using sh1 by (simp add: one_less_power)
    have "to_double (v + 1) = Num (2 ^ 52 * 2 ^ Suc sh)"
      using v53 fin half
      by (simp only: to_double_def s2 Let_def dv diff_Suc_1 if_False)
         (use fin v v2 half in \<open>simp\<close>)
    then show ?thesis using succ v2 by simp
  next
    case False
    then have q'lt: "q' < 2 ^ 53" using q'up by simp
    have sh2: "2 \<le> sh"
    proof (rule ccontr)
      assume "\<not> 2 \<le> sh"
      then have "sh = 1" using sh1 by simp
      then have "v < 2 ^ 54" using q'lt by (simp add: v)
      with big show False by simp
    qed
    have one: "(1::int) < 2 ^ sh" using sh1 by (simp add: one_less_power)
    have b: "bit_length (v + 1) = Suc (52 + sh)"
    proof (rule bit_length_eq)
      have A: "(2::int) ^ 52 * 2 ^ sh \<le> q' * 2 ^ sh"
        using q'low by (intro mult_right_mono) simp_all
      show "2 ^ (52 + sh) \<le> v + 1" unfolding v power_add using A by linarith
      have "q' + 1 \<le> 2 ^ 53" using q'lt by simp
      then have B: "(q' + 1) * 2 ^ sh \<le> 2 ^ 53 * 2 ^ sh" by (intro mult_right_mono) simp_all
      have C: "(q' + 1) * 2 ^ sh = q' * 2 ^ sh + 2 ^ sh" by (simp add: algebra_simps)
      have D: "(2::int) ^ Suc (52 + sh) = 2 ^ 53 * 2 ^ sh" by (simp add: power_add)
      show "v + 1 < 2 ^ Suc (52 + sh)" unfolding v D using B C one by linarith
    qed
    have s2: "bit_length (v + 1) - 53 = sh" using b by simp
    have dv: "(v + 1) div 2 ^ sh = q'" "(v + 1) mod 2 ^ sh = 1"
      unfolding v using div_mod_plus_one [OF one, of q'] by simp_all
    have "(2::int) ^ 1 \<le> 2 ^ (sh - 1)" using sh2 by (intro power_increasing) simp_all
    then have half: "(1::int) < 2 ^ (sh - 1)" by simp
    have "to_double (v + 1) = Num (q' * 2 ^ sh)"
      using v53 by (simp only: to_double_def s2 Let_def dv if_False) (use fin half in \<open>simp\<close>)
    then show ?thesis using succ v by simp
  qed
qed

subsection \<open>The loop\<close>


text \<open>
  A counter that the step leaves where it is, at or below the end, is never above the
  end: the loop has no result.
\<close>

lemma range_loop_never_returns:
  assumes stuck: "js_succ i = i" and below: "js_le i e"
  shows "range_loop i e moves = None"
proof -
  have "\<not> (i' = i \<and> e' = e)" if ret: "range_loop i' e' moves' = Some y" for i' e' moves' y
  proof (rule range_loop.raw_induct [where P = "\<lambda>a b c d. \<not> (a = i \<and> b = e)", OF _ ret])
    fix f a b c d
    assume IH: "\<And>a b c d. f a b c = Some d \<Longrightarrow> \<not> (a = i \<and> b = e)"
      and step: "(if js_le a b then f (js_succ a) b (c @ [generic_option a]) else Some c) = Some d"
    show "\<not> (a = i \<and> b = e)"
    proof
      assume "a = i \<and> b = e"
      then have "f i e (c @ [generic_option i]) = Some d"
        using step stuck below by simp
      from IH [OF this] show False by simp
    qed
  qed
  then have "range_loop i e moves \<noteq> Some y" for y by blast
  then show ?thesis by (cases "range_loop i e moves") auto
qed

text \<open>
  Hence a loop whose counter is a double from \<open>2^54\<close> on, or infinite, and not above
  the end has no result: an option with such a number is never returned.
\<close>

lemma large_counter_never_returns:
  assumes "i = PosInfinity \<or> (\<exists>n v. to_double n = Num v \<and> i = Num v \<and> 2 ^ 54 \<le> v)"
    and "js_le i e"
  shows "range_loop i e moves = None"
proof (rule range_loop_never_returns [OF _ assms(2)])
  show "js_succ i = i"
    using assms(1) double_succ_fixed by auto
qed










section \<open>Rejected sends and actions\<close>

lemma returned_rejected: "returned (rejected err gs ws) = Some JSUndefined"
  by (simp add: returned_def rejected_def)

lemma returned_forwarded: "returned (forwarded gs r) \<noteq> Some (JSBoolean b)"
  by (auto simp: returned_def forwarded_def split: sum.splits prod.splits)

lemma relay_refusal:
  "relay [WebsocketError err] gs = (gs, [WebsocketError err, GameError err])"
  by simp

text \<open>What \<open>send\<close> answers on a transport that is down, seen from an action method.\<close>

lemma forwarded_refused_send:
  "\<not> connected ws \<Longrightarrow>
     forwarded gs (send destination body ws)
       = Inr (JSUndefined, (gs, ws),
              [WebsocketError ''Not connected'', GameError ''Not connected''])"
  by (simp add: forwarded_def send_def)

text \<open>
  Claim C7, as the code has it.  \<open>send\<close> on a transport that is not connected returns
  normally, emits \<open>websocket.error\<close> and leaves the service, and so the messages
  transmitted, as they were.

  While the \<open>isConnected\<close> flag of \<open>GameService\<close> is false, \<open>createGame\<close> and
  \<open>joinGame\<close>, and while it is false or no game id is stored, \<open>rollDice\<close> and
  \<open>selectPiece\<close>, return normally, emit one \<open>game.error\<close> and leave both services as
  they were; \<open>requestGameState\<close> then returns normally and leaves both services as they
  were.

  While that flag is true but the transport is down, a call that passes the guards of
  its method reaches \<open>send\<close>: \<open>websocket.error\<close> is emitted and, by the listener of
  \<open>GameService\<close>, \<open>game.error\<close>; nothing is transmitted; both services are as they were,
  but for \<open>joinGame\<close>, which has stored the game id in the transport service.

  These five methods never return a boolean: their value is \<open>undefined\<close>, refused or
  not, and so is that of \<open>disconnect\<close>.  Only \<open>connect\<close> returns a value: on a
  transport that is neither connected nor connecting it returns \<open>false\<close> after
  \<open>websocket.error\<close> and two \<open>game.error\<close> events when the handshake is refused, and
  whenever it returns, it returns a boolean.
\<close>

theorem rejected_send_and_actions:
  "(\<not> connected ws \<longrightarrow>
      send destination body ws = Inr (ws, [WebsocketError ''Not connected'']))
   \<and> (\<not> isConnected gs \<longrightarrow>
        createGame playerId gs ws
          = Inr (JSUndefined, (gs, ws), [GameError ''Not connected to server''])
        \<and> joinGame playerId gameId gs ws
          = Inr (JSUndefined, (gs, ws), [GameError ''Not connected to server'']))
   \<and> (\<not> isConnected gs \<or> \<not> truthy (currentGameId gs) \<longrightarrow>
        rollDice gs ws = Inr (JSUndefined, (gs, ws), [GameError ''Not in an active game''])
        \<and> selectPiece pieceIndex gs ws
          = Inr (JSUndefined, (gs, ws), [GameError ''Not in an active game''])
        \<and> (\<exists>evs. requestGameState gs ws = Inr (JSUndefined, (gs, ws), evs)))
   \<and> (isConnected gs \<and> \<not> connected ws \<longrightarrow>
        createGame playerId gs ws
          = Inr (JSUndefined, (gs, ws),
                 [WebsocketError ''Not connected'', GameError ''Not connected''])
        \<and> (g \<noteq> [] \<and> trim g \<noteq> [] \<longrightarrow>
             joinGame playerId (Some g) gs ws
               = Inr (JSUndefined, (gs, ws\<lparr> ws_currentGameId := Some g \<rparr>),
                      [WebsocketError ''Not connected'', GameError ''Not connected'']))
        \<and> (truthy (currentGameId gs) \<longrightarrow>
             rollDice gs ws
               = Inr (JSUndefined, (gs, ws),
                      [WebsocketError ''Not connected'', GameError ''Not connected''])
             \<and> (0 \<le> pieceIndex \<longrightarrow>
                  selectPiece pieceIndex gs ws
                    = Inr (JSUndefined, (gs, ws),
                           [WebsocketError ''Not connected'', GameError ''Not connected'']))
             \<and> requestGameState gs ws
                 = Inr (JSUndefined, (gs, ws),
                        [WebsocketError ''Not connected'', GameError ''Not connected''])))
   \<and> returned (createGame playerId gs ws) \<noteq> Some (JSBoolean b)
   \<and> returned (joinGame playerId gameId gs ws) \<noteq> Some (JSBoolean b)
   \<and> returned (rollDice gs ws) \<noteq> Some (JSBoolean b)
   \<and> returned (selectPiece pieceIndex gs ws) \<noteq> Some (JSBoolean b)
   \<and> returned (requestGameState gs ws) \<noteq> Some (JSBoolean b)
   \<and> returned (gs_disconnect gs ws) = Some JSUndefined
   \<and> (\<not> connected ws \<and> \<not> connecting ws \<longrightarrow>
        gs_connect (Refused err) gs ws
          = Some (Inr (JSBoolean False,
                       (gs, ws\<lparr> stompClient := Some (new_client\<lparr> activated := True \<rparr>),
                                connected := False, connecting := False \<rparr>),
                       [WebsocketError err, GameError err, GameError ''Connection failed''])))
   \<and> (gs_connect h gs ws = Some r \<longrightarrow> returned r \<noteq> Some JSUndefined)"
proof (intro conjI impI)
  assume "\<not> connected ws"
  then show "send destination body ws = Inr (ws, [WebsocketError ''Not connected''])"
    by (simp add: send_def)
next
  assume "\<not> isConnected gs"
  then show "createGame playerId gs ws
      = Inr (JSUndefined, (gs, ws), [GameError ''Not connected to server''])"
    by (simp add: createGame_def rejected_def)
next
  assume "\<not> isConnected gs"
  then show "joinGame playerId gameId gs ws
      = Inr (JSUndefined, (gs, ws), [GameError ''Not connected to server''])"
    by (simp add: joinGame_def rejected_def)
next
  assume "\<not> isConnected gs \<or> \<not> truthy (currentGameId gs)"
  then show "rollDice gs ws = Inr (JSUndefined, (gs, ws), [GameError ''Not in an active game''])"
    by (auto simp: rollDice_def rejected_def)
next
  assume "\<not> isConnected gs \<or> \<not> truthy (currentGameId gs)"
  then show "selectPiece pieceIndex gs ws
      = Inr (JSUndefined, (gs, ws), [GameError ''Not in an active game''])"
    by (auto simp: selectPiece_def rejected_def)
next
  assume "\<not> isConnected gs \<or> \<not> truthy (currentGameId gs)"
  then show "\<exists>evs. requestGameState gs ws = Inr (JSUndefined, (gs, ws), evs)"
    by (auto simp: requestGameState_def)
next
  assume "isConnected gs \<and> \<not> connected ws"
  then show "createGame playerId gs ws
      = Inr (JSUndefined, (gs, ws),
             [WebsocketError ''Not connected'', GameError ''Not connected''])"
    by (simp add: createGame_def ws_createGame_def forwarded_refused_send)
next
  assume "isConnected gs \<and> \<not> connected ws" and "g \<noteq> [] \<and> trim g \<noteq> []"
  then show "joinGame playerId (Some g) gs ws
      = Inr (JSUndefined, (gs, ws\<lparr> ws_currentGameId := Some g \<rparr>),
             [WebsocketError ''Not connected'', GameError ''Not connected''])"
    by (simp add: joinGame_def ws_joinGame_def forwarded_refused_send)
next
  assume "isConnected gs \<and> \<not> connected ws" and "truthy (currentGameId gs)"
  then show "rollDice gs ws
      = Inr (JSUndefined, (gs, ws),
             [WebsocketError ''Not connected'', GameError ''Not connected''])"
    by (simp add: rollDice_def ws_rollDice_def forwarded_refused_send)
next
  assume "isConnected gs \<and> \<not> connected ws" and "truthy (currentGameId gs)"
    and "0 \<le> pieceIndex"
  then show "selectPiece pieceIndex gs ws
      = Inr (JSUndefined, (gs, ws),
             [WebsocketError ''Not connected'', GameError ''Not connected''])"
    by (simp add: selectPiece_def ws_makeChoice_def forwarded_refused_send)
next
  assume "isConnected gs \<and> \<not> connected ws" and "truthy (currentGameId gs)"
  then show "requestGameState gs ws
      = Inr (JSUndefined, (gs, ws),
             [WebsocketError ''Not connected'', GameError ''Not connected''])"
    by (simp add: requestGameState_def ws_getGameState_def forwarded_refused_send)
next
  show "returned (createGame playerId gs ws) \<noteq> Some (JSBoolean b)"
    by (simp add: createGame_def returned_rejected returned_forwarded)
next
  show "returned (joinGame playerId gameId gs ws) \<noteq> Some (JSBoolean b)"
    by (simp add: joinGame_def returned_rejected returned_forwarded split: option.splits)
next
  show "returned (rollDice gs ws) \<noteq> Some (JSBoolean b)"
    by (simp add: rollDice_def returned_rejected returned_forwarded)
next
  show "returned (selectPiece pieceIndex gs ws) \<noteq> Some (JSBoolean b)"
    by (simp add: selectPiece_def returned_rejected returned_forwarded)
next
  show "returned (requestGameState gs ws) \<noteq> Some (JSBoolean b)"
    by (simp add: requestGameState_def returned_forwarded) (simp add: returned_def)
next
  show "returned (gs_disconnect gs ws) = Some JSUndefined"
    by (simp add: gs_disconnect_def returned_def split_def Let_def)
next
  assume "\<not> connected ws \<and> \<not> connecting ws"
  then show "gs_connect (Refused err) gs ws
      = Some (Inr (JSBoolean False,
                   (gs, ws\<lparr> stompClient := Some (new_client\<lparr> activated := True \<rparr>),
                            connected := False, connecting := False \<rparr>),
                   [WebsocketError err, GameError err, GameError ''Connection failed'']))"
    by (simp add: gs_connect_def connect_def onStompError_def)
next
  assume "gs_connect h gs ws = Some r"
  then show "returned r \<noteq> Some JSUndefined"
    by (auto simp: gs_connect_def returned_def Let_def split_def
        split: prod.splits promise.splits handshake.splits sum.splits)
qed

theorem rejected_send_and_actions_witness:
  "send ''/app/game.roll'' EmptyPayload fresh_ws = Inr (fresh_ws, [WebsocketError ''Not connected''])
   \<and> createGame ''player-1'' offline_service fresh_ws
       = Inr (JSUndefined, (offline_service, fresh_ws), [GameError ''Not connected to server''])
   \<and> rollDice offline_service connected_ws
       = Inr (JSUndefined, (offline_service, connected_ws), [GameError ''Not in an active game''])
   \<and> rollDice (service_holding None) dropped_ws
       = Inr (JSUndefined, (service_holding None, dropped_ws),
              [WebsocketError ''Not connected'', GameError ''Not connected''])
   \<and> gs_connect (Refused ''refused'') offline_service fresh_ws
       = Some (Inr (JSBoolean False,
                    (offline_service,
                     fresh_ws\<lparr> stompClient := Some (new_client\<lparr> activated := True \<rparr>),
                               connected := False, connecting := False \<rparr>),
                    [WebsocketError ''refused'', GameError ''refused'',
                     GameError ''Connection failed'']))"
proof -
  have h1: "\<not> connected fresh_ws" by (simp add: fresh_ws_def)
  have h2: "\<not> isConnected offline_service" by (simp add: offline_service_def)
  have h3: "\<not> isConnected offline_service \<or> \<not> truthy (currentGameId offline_service)"
    by (simp add: offline_service_def)
  have h4: "isConnected (service_holding None) \<and> \<not> connected dropped_ws"
    by (simp add: service_holding_def dropped_ws_def onStompError_def)
  have h5: "truthy (currentGameId (service_holding None))"
    by (simp add: service_holding_def truthy_def)
  have h6: "\<not> connected fresh_ws \<and> \<not> connecting fresh_ws" by (simp add: fresh_ws_def)
  show ?thesis
    using h1 h2 h3 h4 h5 h6
      rejected_send_and_actions [of fresh_ws "''/app/game.roll''" EmptyPayload offline_service
        "''player-1''" None 0 "''ABCD''" True "''refused''" Accepted]
      rejected_send_and_actions [of connected_ws "''/app/game.roll''" EmptyPayload offline_service
        "''player-1''" None 0 "''ABCD''" True "''refused''" Accepted]
      rejected_send_and_actions [of dropped_ws "''/app/game.roll''" EmptyPayload
        "service_holding None" "''player-1''" None 0 "''ABCD''" True "''refused''" Accepted]
    by simp
qed

text \<open>
  Claim C7 as stated does not hold.  \<open>createGame\<close> returns \<open>undefined\<close> when it is
  refused on a disconnected service, the value it returns when the call goes through, so
  the returned value signals nothing; \<open>requestGameState\<close> refused on a disconnected
  service emits no event; and \<open>joinGame\<close> on a transport that is down, with the flag of
  \<open>GameService\<close> still set, changes the game id stored in the transport service.
\<close>

theorem rejected_action_counterexample:
  "returned (createGame ''player-1'' offline_service fresh_ws) = Some JSUndefined
   \<and> createGame ''player-1'' (service_holding None) connected_ws
       = Inr (JSUndefined,
              (service_holding None,
               connected_ws\<lparr> stompClient := Some \<lparr> activated = True,
                   subscribed = [''/user/queue/response''], unsubscribed = [],
                   published = [(''/app/game.create'', CreatePayload ''player-1'')] \<rparr> \<rparr>),
              [])
   \<and> emitted (requestGameState offline_service fresh_ws) = []
   \<and> connected dropped_ws = False
   \<and> ws_currentGameId dropped_ws = None
   \<and> joinGame ''player-1'' (Some ''ABCD'') (service_holding None) dropped_ws
       = Inr (JSUndefined,
              (service_holding None, dropped_ws\<lparr> ws_currentGameId := Some ''ABCD'' \<rparr>),
              [WebsocketError ''Not connected'', GameError ''Not connected''])"
  by (simp add: createGame_def joinGame_def rejected_def forwarded_def ws_createGame_def
      ws_joinGame_def send_def returned_def emitted_def requestGameState_def
      offline_service_def service_holding_def fresh_ws_def connected_ws_def dropped_ws_def
      onStompError_def trim_def is_js_space_def)

section \<open>The dice broadcast\<close>

lemma parseInt_empty: "parseInt [] = NaN"
  by (simp add: parseInt_def)

lemma digit_cases: "is_digit c \<Longrightarrow> \<not> is_js_space c \<and> c \<noteq> CHR ''-'' \<and> c \<noteq> CHR ''+''"
  by (auto simp: is_digit_def is_js_space_def)

lemma digit_value_range: "is_digit c \<Longrightarrow> 0 \<le> digit_value c \<and> digit_value c \<le> 9"
  by (auto simp: is_digit_def digit_value_def)

lemma double_of_digit: "is_digit c \<Longrightarrow> double_of_int (digit_value c) = Num (digit_value c)"
  using digit_value_range [of c] by (simp add: double_of_int_def to_double_def)

lemma parseInt_single:
  "parseInt [c] = (if is_digit c then Num (digit_value c) else NaN)"
proof (cases "is_digit c")
  case True
  then show ?thesis
    using digit_cases [OF True] double_of_digit [OF True]
    by (simp add: parseInt_def digits_value_def Let_def)
next
  case False
  then show ?thesis
    by (simp add: parseInt_def Let_def)
qed

lemma parseInt_charAt:
  "parseInt (charAt m i)
     = (if i < length m \<and> is_digit (m ! i) then Num (digit_value (m ! i)) else NaN)"
  by (simp add: charAt_def parseInt_single parseInt_empty)

lemma digit_value_digit_char: "d < 10 \<Longrightarrow> is_digit (digit_char d) \<and> digit_value (digit_char d) = int d"
proof -
  assume "d < 10"
  then have "d \<in> {0, 1, 2, 3, 4, 5, 6, 7, 8, 9}" by auto
  then show ?thesis
    by (auto simp: digit_char_def digit_value_def is_digit_def)
qed

text \<open>
  Claim C8.  For a dice frame with \<open>success\<close> and a message, \<open>handleDiceEvent\<close> emits
  one \<open>dice.updated\<close> whose two values are \<open>parseInt\<close> of the first and of the second
  character of the message (nothing is emitted for the empty message).  Such a value is
  the digit at that place, from 0 to 9, and \<open>NaN\<close> when the place holds no digit or does
  not exist: no value above 9 comes out of this path.
\<close>

theorem dice_event_single_digits:
  assumes "success ev" and "message ev = Some m"
  shows "handleDiceEvent ev
           = (if m = [] then []
              else [DiceRolled (parseInt (charAt m 0)) (parseInt (charAt m 1))])
    \<and> (\<forall>i. parseInt (charAt m i)
            = (if i < length m \<and> is_digit (m ! i) then Num (digit_value (m ! i)) else NaN))
    \<and> (\<forall>c. is_digit c \<longrightarrow> 0 \<le> digit_value c \<and> digit_value c \<le> 9)
    \<and> (\<forall>d<10. is_digit (digit_char d) \<and> digit_value (digit_char d) = int d)"
  using assms
  by (simp add: handleDiceEvent_def truthy_def parseInt_charAt digit_value_range
      digit_value_digit_char)

theorem dice_event_single_digits_witness:
  "handleDiceEvent \<lparr> frame_type = ''DICE_ROLLED'', success = True, message = Some ''36'',
                     data = None \<rparr> = [DiceRolled (Num 3) (Num 6)]
   \<and> handleDiceEvent \<lparr> frame_type = ''DICE_ROLLED'', success = True, message = Some ''5'',
                       data = None \<rparr> = [DiceRolled (Num 5) NaN]"
proof -
  let ?a = "\<lparr> frame_type = ''DICE_ROLLED'', success = True, message = Some ''36'', data = None \<rparr>"
  let ?b = "\<lparr> frame_type = ''DICE_ROLLED'', success = True, message = Some ''5'', data = None \<rparr>"
  have a: "success ?a" "message ?a = Some ''36''" by simp_all
  have b: "success ?b" "message ?b = Some ''5''" by simp_all
  show ?thesis
    using dice_event_single_digits [OF a] dice_event_single_digits [OF b]
    by (simp add: is_digit_def digit_value_def)
qed

section \<open>Repeated connect\<close>

text \<open>The connected service of the examples is what a first connection produces.\<close>

lemma first_connection:
  "onConnect (snd (connect fresh_ws)) = Inr (connected_ws, [WebsocketConnected ''user-1''])"
  by (simp add: onConnect_def connect_def subscribeToPersonalQueue_def subscribe_as_def
      new_client_def fresh_ws_def connected_ws_def)

text \<open>
  Claim C9.  \<open>connect\<close> on a service that is connected or connecting returns a resolved
  promise and the service unchanged: flags, session id, subscriptions and client are
  the same, so no client is created or activated.  Hence a second \<open>connect\<close> right
  after any \<open>connect\<close> changes nothing.
\<close>

theorem connect_idempotent:
  "(connected ws \<or> connecting ws \<longrightarrow> connect ws = (Resolved, ws))
   \<and> connect (snd (connect ws)) = (Resolved, snd (connect ws))"
proof (intro conjI impI)
  assume "connected ws \<or> connecting ws"
  then show "connect ws = (Resolved, ws)"
    by (simp add: connect_def)
next
  show "connect (snd (connect ws)) = (Resolved, snd (connect ws))"
  proof (cases "connected ws \<or> connecting ws")
    case True
    then have "connect ws = (Resolved, ws)" by (simp add: connect_def)
    then show ?thesis by simp
  next
    case False
    then have "connecting (snd (connect ws))" by (simp add: connect_def)
    then show ?thesis by (simp add: connect_def [of "snd (connect ws)"])
  qed
qed

theorem connect_idempotent_witness:
  "connect connected_ws = (Resolved, connected_ws)
   \<and> connect (snd (connect fresh_ws)) = (Resolved, snd (connect fresh_ws))
   \<and> connecting (snd (connect fresh_ws))"
proof -
  have h: "connected connected_ws \<or> connecting connected_ws"
    by (simp add: connected_ws_def)
  show ?thesis
    using h connect_idempotent [of connected_ws] connect_idempotent [of fresh_ws]
    by (simp add: connect_def fresh_ws_def)
qed

section \<open>Emission on the bus\<close>

lemma emit_loop_called:
  "em_called (emit_loop B d cbs st) = em_called st @ cbs"
  by (induction cbs arbitrary: st) (simp_all add: Let_def split_def)

lemma emit_loop_caught:
  "em_caught (emit_loop B d cbs st) = em_caught st @ filter (\<lambda>cb. snd (B cb d)) cbs"
  by (induction cbs arbitrary: st) (simp_all add: Let_def split_def)

text \<open>
  Claim C10.  Whatever the callbacks do, throw or change the subscriptions, an emission
  calls the callbacks that were subscribed to the event when it started, each entry of
  the array once, in subscription order, and none when the event has no entry.  The
  exceptions are caught one by one: the callbacks that threw are exactly those logged,
  and the callbacks after a throwing one are called all the same.  \<open>subscribe\<close> puts a
  callback at the end of the array, so a callback subscribed last is called last.
\<close>

theorem emit_calls_every_listener:
  "em_called (emit B ev d ls) = (case ls ev of None \<Rightarrow> [] | Some cbs \<Rightarrow> cbs)
   \<and> em_caught (emit B ev d ls)
       = (case ls ev of None \<Rightarrow> [] | Some cbs \<Rightarrow> filter (\<lambda>cb. snd (B cb d)) cbs)
   \<and> em_called (emit B ev d (subscribe ev cb ls))
       = (case ls ev of None \<Rightarrow> [] | Some cbs \<Rightarrow> cbs) @ [cb]"
proof (cases "ls ev")
  case None
  then have "subscribe ev cb ls ev = Some [cb]" by (simp add: subscribe_def)
  then have "em_called (emit B ev d (subscribe ev cb ls)) = [cb]"
    by (simp add: emit_def emit_loop_called del: emit_loop.simps)
  then show ?thesis using None by (simp add: emit_def)
next
  case (Some cbs)
  then have "subscribe ev cb ls ev = Some (cbs @ [cb])" by (simp add: subscribe_def)
  then have "em_called (emit B ev d (subscribe ev cb ls)) = cbs @ [cb]"
    by (simp add: emit_def emit_loop_called del: emit_loop.simps)
  then show ?thesis using Some by (simp add: emit_def emit_loop_called emit_loop_caught)
qed

theorem emit_calls_every_listener_witness:
  "em_called (emit sample_behaviour ''dice.updated'' ()
      (subscribe ''dice.updated'' 3 (subscribe ''dice.updated'' 2
        (subscribe ''dice.updated'' 1 (subscribe ''dice.updated'' 0 (\<lambda>_. None))))))
     = [0, 1, 2, 3]
   \<and> em_caught (emit sample_behaviour ''dice.updated'' ()
      (subscribe ''dice.updated'' 3 (subscribe ''dice.updated'' 2
        (subscribe ''dice.updated'' 1 (subscribe ''dice.updated'' 0 (\<lambda>_. None))))))
     = [1]"
  using emit_calls_every_listener [of sample_behaviour "''dice.updated''" "()"
      "subscribe ''dice.updated'' 3 (subscribe ''dice.updated'' 2
        (subscribe ''dice.updated'' 1 (subscribe ''dice.updated'' 0 (\<lambda>_. None))))"]
  by (simp add: subscribe_def sample_behaviour_def)

end
